theory Spec2Isabelle
  imports Complex_Main "HOL-Library.Sublist" "HOL-Library.AList" "HOL-Library.Multiset"
    "HOL-Library.Word" "HOL-Library.Monad_Syntax"
begin

section \<open>Python values used by the synthesis pipeline\<close>

subsection \<open>Text\<close>

text \<open>
  A Python \<open>str\<close> is a sequence of Unicode code points, so text is a list of natural
  numbers (the code points), and \<open>len\<close> is \<open>length\<close>. ASCII literals of the source are
  written \<open>py ''...''\<close>. The characters the source names by escape are
  \<open>\n\<close> = 10, \<open>\r\<close> = 13, \<open>\t\<close> = 9, \<open>\x00\<close> = 0 and the backslash = 92.
  Functions keep the names of the source, without the leading underscore of private
  methods.
\<close>

type_synonym codepoint = nat
type_synonym str = "codepoint list"

definition py :: "string \<Rightarrow> str" where
  "py s = map of_char s"

abbreviation NUL :: codepoint where "NUL \<equiv> 0"
abbreviation TAB :: codepoint where "TAB \<equiv> 9"
abbreviation LF :: codepoint where "LF \<equiv> 10"
abbreviation CR :: codepoint where "CR \<equiv> 13"
abbreviation BACKSLASH :: codepoint where "BACKSLASH \<equiv> 92"

text \<open>
  \<open>str.isspace\<close> for one character: the code points CPython classifies as whitespace.
  \<open>str.strip()\<close> removes the longest prefix and the longest suffix of such characters.
\<close>

definition isspace :: "codepoint \<Rightarrow> bool" where
  "isspace c \<longleftrightarrow>
     (9 \<le> c \<and> c \<le> 13) \<or> (28 \<le> c \<and> c \<le> 32) \<or> c = 133 \<or> c = 160 \<or> c = 5760 \<or>
     (8192 \<le> c \<and> c \<le> 8202) \<or> c = 8232 \<or> c = 8233 \<or> c = 8239 \<or> c = 8287 \<or> c = 12288"

definition strip :: "str \<Rightarrow> str" where
  "strip s = rev (dropWhile isspace (rev (dropWhile isspace s)))"

text \<open>
  \<open>text.replace(old, new)\<close>: every non-overlapping occurrence of \<open>old\<close>, scanning from the
  left, is replaced by \<open>new\<close>. For an empty \<open>old\<close> Python inserts \<open>new\<close> before every
  character and at the end.
\<close>

function str_replace :: "str \<Rightarrow> str \<Rightarrow> str \<Rightarrow> str" where
  "str_replace old new text =
     (if old = [] then new @ concat (map (\<lambda>c. c # new) text)
      else if text = [] then []
      else if prefix old text then new @ str_replace old new (drop (length old) text)
      else hd text # str_replace old new (tl text))"
  by pat_completeness auto
termination
  by (relation "measure (\<lambda>(old, new, text). length text)") auto

declare str_replace.simps [simp del]

text \<open>
  \<open>text.find(sub)\<close> and \<open>text.rfind(sub)\<close>: the lowest and the highest index at which
  \<open>sub\<close> occurs; Python's \<open>-1\<close> is \<open>None\<close>. \<open>sub in text\<close> is \<open>str_contains\<close>.
\<close>

fun str_find :: "str \<Rightarrow> str \<Rightarrow> nat option" where
  "str_find sub [] = (if sub = [] then Some 0 else None)"
| "str_find sub (c # cs) =
     (if prefix sub (c # cs) then Some 0 else map_option Suc (str_find sub cs))"

fun str_rfind :: "str \<Rightarrow> str \<Rightarrow> nat option" where
  "str_rfind sub [] = (if sub = [] then Some 0 else None)"
| "str_rfind sub (c # cs) =
     (case str_rfind sub cs of
        Some i \<Rightarrow> Some (Suc i)
      | None \<Rightarrow> if prefix sub (c # cs) then Some 0 else None)"

definition str_contains :: "str \<Rightarrow> str \<Rightarrow> bool" where
  "str_contains sub text \<longleftrightarrow> str_find sub text \<noteq> None"

text \<open>The slice \<open>text[a:b]\<close> for indices \<open>0 \<le> a\<close>, \<open>0 \<le> b\<close>.\<close>

definition slice :: "str \<Rightarrow> nat \<Rightarrow> nat \<Rightarrow> str" where
  "slice text a b = take (b - a) (drop a text)"

subsection \<open>JSON values and dictionaries\<close>

text \<open>
  What \<open>json.loads\<close> returns: \<open>None\<close>, \<open>bool\<close>, \<open>int\<close>, \<open>float\<close>, \<open>str\<close>, \<open>list\<close> and
  \<open>dict\<close> with string keys. A \<open>dict\<close> is an association list in insertion order:
  \<open>k in d\<close> is \<open>map_of d k \<noteq> None\<close>, \<open>d[k] = v\<close> is \<open>AList.update k v d\<close> (in place
  for an existing key, appended for a new one) and \<open>d.pop(k)\<close> leaves \<open>AList.delete k d\<close>.
  Of a \<open>float\<close> the code below only observes whether it is zero (a non-finite float
  counts as any non-zero value).
\<close>

datatype json =
    JNull
  | JBool bool
  | JInt int
  | JFloat real
  | JString str
  | JArray "json list"
  | JObject "(str \<times> json) list"

type_synonym dict = "(str \<times> json) list"

text \<open>Truth value of a Python object, as \<open>not x\<close> and \<open>if x\<close> test it.\<close>

fun truthy :: "json \<Rightarrow> bool" where
  "truthy JNull = False"
| "truthy (JBool b) = b"
| "truthy (JInt i) = (i \<noteq> 0)"
| "truthy (JFloat x) = (x \<noteq> 0)"
| "truthy (JString s) = (s \<noteq> [])"
| "truthy (JArray xs) = (xs \<noteq> [])"
| "truthy (JObject d) = (d \<noteq> [])"

text \<open>\<open>d.get(k, default)\<close>.\<close>

definition dict_get :: "dict \<Rightarrow> str \<Rightarrow> json \<Rightarrow> json" where
  "dict_get d k dflt = (case map_of d k of Some v \<Rightarrow> v | None \<Rightarrow> dflt)"

text \<open>
  The exceptions of the LLM service. Every error the service raises itself is a
  \<open>ValueError\<close>; the constructors distinguish them by message. \<open>SchemaMismatch e\<close> is
  "LLM response does not match expected schema: e". \<open>ValueError\<close> is a \<open>ValueError\<close> raised
  by a library that is none of the others (\<open>json.loads\<close> on an integer literal beyond the
  digit limit of \<open>int\<close>), \<open>RecursionError\<close> what \<open>json.loads\<close> raises on a text nested too
  deeply.
\<close>

datatype error =
    NoDataSource
  | LLMApiError str
  | NoValidJSON
  | SchemaMismatch error
  | AttributeError
  | TypeError
  | ValidationError
  | KeyError
  | ValueError
  | RecursionError

text \<open>
  \<open>isinstance(e, ValueError)\<close>, which an \<open>except ValueError\<close> clause tests (pydantic's
  \<open>ValidationError\<close> is a subclass of \<open>ValueError\<close>).
\<close>

fun is_ValueError :: "error \<Rightarrow> bool" where
  "is_ValueError NoDataSource = True"
| "is_ValueError (LLMApiError msg) = True"
| "is_ValueError NoValidJSON = True"
| "is_ValueError (SchemaMismatch e) = True"
| "is_ValueError AttributeError = False"
| "is_ValueError TypeError = False"
| "is_ValueError ValidationError = True"
| "is_ValueError KeyError = False"
| "is_ValueError ValueError = True"
| "is_ValueError RecursionError = False"

section \<open>Canonical schema (\<open>app/schemas/resume_schema.py\<close>)\<close>

text \<open>
  The pydantic models, as functions from the keyword arguments (a \<open>dict\<close>) to the
  validated object; \<open>None\<close> stands for pydantic's \<open>ValidationError\<close>. On values that come
  from JSON a \<open>str\<close> field accepts a string only, \<open>Optional[str]\<close> also \<open>null\<close>, a
  \<open>List[str]\<close> field an array of strings, a model field a \<open>dict\<close>; unknown keys are
  ignored. \<open>str.lower\<close> (Unicode case mapping) and the \<open>EmailStr\<close> check are parameters.
\<close>

definition as_str :: "json \<Rightarrow> str option" where
  "as_str j = (case j of JString s \<Rightarrow> Some s | _ \<Rightarrow> None)"

definition as_str_list :: "json \<Rightarrow> str list option" where
  "as_str_list j = (case j of JArray xs \<Rightarrow> those (map as_str xs) | _ \<Rightarrow> None)"

definition as_model :: "(dict \<Rightarrow> 'a option) \<Rightarrow> json \<Rightarrow> 'a option" where
  "as_model model j = (case j of JObject d \<Rightarrow> model d | _ \<Rightarrow> None)"

definition as_model_list :: "(dict \<Rightarrow> 'a option) \<Rightarrow> json \<Rightarrow> 'a list option" where
  "as_model_list model j = (case j of JArray xs \<Rightarrow> those (map (as_model model) xs) | _ \<Rightarrow> None)"

text \<open>\<open>Field(...)\<close>, \<open>Optional[T] = Field(None)\<close> and \<open>Field(default_factory=...)\<close>.\<close>

definition required :: "dict \<Rightarrow> str \<Rightarrow> (json \<Rightarrow> 'a option) \<Rightarrow> 'a option" where
  "required d k conv = (case map_of d k of None \<Rightarrow> None | Some j \<Rightarrow> conv j)"

definition optional :: "dict \<Rightarrow> str \<Rightarrow> (json \<Rightarrow> 'a option) \<Rightarrow> 'a option option" where
  "optional d k conv =
     (case map_of d k of
        None \<Rightarrow> Some None
      | Some JNull \<Rightarrow> Some None
      | Some j \<Rightarrow> map_option Some (conv j))"

definition defaulted :: "dict \<Rightarrow> str \<Rightarrow> 'a \<Rightarrow> (json \<Rightarrow> 'a option) \<Rightarrow> 'a option" where
  "defaulted d k dflt conv = (case map_of d k of None \<Rightarrow> Some dflt | Some j \<Rightarrow> conv j)"

text \<open>The field validators: the value is lower-cased and must be in the allowed set.\<close>

definition one_of :: "(str \<Rightarrow> str) \<Rightarrow> str list \<Rightarrow> str \<Rightarrow> str option" where
  "one_of lower allowed v = (if lower v \<notin> set allowed then None else Some (lower v))"

definition validate_source :: "(str \<Rightarrow> str) \<Rightarrow> str \<Rightarrow> str option" where
  "validate_source lower v = one_of lower [py ''resume'', py ''github'', py ''both''] v"

definition validate_action :: "(str \<Rightarrow> str) \<Rightarrow> str \<Rightarrow> str option" where
  "validate_action lower v =
     one_of lower [py ''included'', py ''excluded'', py ''merged'', py ''normalized''] v"

definition validate_confidence :: "(str \<Rightarrow> str) \<Rightarrow> str \<Rightarrow> str option" where
  "validate_confidence lower v = one_of lower [py ''high'', py ''medium'', py ''low''] v"

record ContactInfo =
  full_name :: "str option"
  email :: "str option"
  phone :: "str option"
  location :: "str option"
  github :: "str option"
  linkedin :: "str option"
  website :: "str option"

definition ContactInfo_new :: "(str \<Rightarrow> str option) \<Rightarrow> dict \<Rightarrow> ContactInfo option" where
  "ContactInfo_new email_str d = do {
     a \<leftarrow> optional d (py ''full_name'') as_str;
     b \<leftarrow> optional d (py ''email'') (\<lambda>j. as_str j \<bind> email_str);
     c \<leftarrow> optional d (py ''phone'') as_str;
     e \<leftarrow> optional d (py ''location'') as_str;
     f \<leftarrow> optional d (py ''github'') as_str;
     g \<leftarrow> optional d (py ''linkedin'') as_str;
     h \<leftarrow> optional d (py ''website'') as_str;
     Some \<lparr>full_name = a, email = b, phone = c, location = e, github = f, linkedin = g,
       website = h\<rparr> }"

record TechnicalSkills =
  languages :: "str list"
  frameworks_libraries :: "str list"
  tools_platforms :: "str list"
  databases :: "str list"
  other :: "str list"

definition TechnicalSkills_new :: "dict \<Rightarrow> TechnicalSkills option" where
  "TechnicalSkills_new d = do {
     a \<leftarrow> defaulted d (py ''languages'') [] as_str_list;
     b \<leftarrow> defaulted d (py ''frameworks_libraries'') [] as_str_list;
     c \<leftarrow> defaulted d (py ''tools_platforms'') [] as_str_list;
     e \<leftarrow> defaulted d (py ''databases'') [] as_str_list;
     f \<leftarrow> defaulted d (py ''other'') [] as_str_list;
     Some \<lparr>languages = a, frameworks_libraries = b, tools_platforms = c, databases = e,
       other = f\<rparr> }"

record Project =
  project_name :: str
  project_description :: str
  project_technologies :: "str list"
  project_source :: str
  project_url :: "str option"
  highlights :: "str list"
  project_start_date :: "str option"
  project_end_date :: "str option"

definition Project_new :: "(str \<Rightarrow> str) \<Rightarrow> dict \<Rightarrow> Project option" where
  "Project_new lower d = do {
     a \<leftarrow> required d (py ''name'') as_str;
     b \<leftarrow> required d (py ''description'') as_str;
     c \<leftarrow> required d (py ''technologies'') as_str_list;
     e \<leftarrow> required d (py ''source'') (\<lambda>j. as_str j \<bind> validate_source lower);
     f \<leftarrow> optional d (py ''url'') as_str;
     g \<leftarrow> defaulted d (py ''highlights'') [] as_str_list;
     h \<leftarrow> optional d (py ''start_date'') as_str;
     i \<leftarrow> optional d (py ''end_date'') as_str;
     Some \<lparr>project_name = a, project_description = b, project_technologies = c,
       project_source = e, project_url = f, highlights = g, project_start_date = h,
       project_end_date = i\<rparr> }"

record Education =
  degree :: str
  institution :: str
  education_location :: "str option"
  graduation_date :: "str option"
  gpa :: "str option"
  relevant_coursework :: "str list"
  honors :: "str list"

definition Education_new :: "dict \<Rightarrow> Education option" where
  "Education_new d = do {
     a \<leftarrow> required d (py ''degree'') as_str;
     b \<leftarrow> required d (py ''institution'') as_str;
     c \<leftarrow> optional d (py ''location'') as_str;
     e \<leftarrow> optional d (py ''graduation_date'') as_str;
     f \<leftarrow> optional d (py ''gpa'') (\<lambda>j. map_option strip (as_str j));
     g \<leftarrow> defaulted d (py ''relevant_coursework'') [] as_str_list;
     h \<leftarrow> defaulted d (py ''honors'') [] as_str_list;
     Some \<lparr>degree = a, institution = b, education_location = c, graduation_date = e, gpa = f,
       relevant_coursework = g, honors = h\<rparr> }"

record Experience =
  role :: str
  organization :: str
  experience_location :: "str option"
  experience_start_date :: "str option"
  experience_end_date :: "str option"
  experience_description :: "str list"
  experience_technologies :: "str list"

definition Experience_new :: "dict \<Rightarrow> Experience option" where
  "Experience_new d = do {
     a \<leftarrow> required d (py ''role'') as_str;
     b \<leftarrow> required d (py ''organization'') as_str;
     c \<leftarrow> optional d (py ''location'') as_str;
     e \<leftarrow> optional d (py ''start_date'') as_str;
     f \<leftarrow> optional d (py ''end_date'') as_str;
     g \<leftarrow> required d (py ''description'') as_str_list;
     h \<leftarrow> defaulted d (py ''technologies'') [] as_str_list;
     Some \<lparr>role = a, organization = b, experience_location = c, experience_start_date = e,
       experience_end_date = f, experience_description = g, experience_technologies = h\<rparr> }"

record Certification =
  certification_name :: str
  issuer :: "str option"
  date :: "str option"
  credential_id :: "str option"
  certification_url :: "str option"

definition Certification_new :: "dict \<Rightarrow> Certification option" where
  "Certification_new d = do {
     a \<leftarrow> required d (py ''name'') as_str;
     b \<leftarrow> optional d (py ''issuer'') as_str;
     c \<leftarrow> optional d (py ''date'') as_str;
     e \<leftarrow> optional d (py ''credential_id'') as_str;
     f \<leftarrow> optional d (py ''url'') as_str;
     Some \<lparr>certification_name = a, issuer = b, date = c, credential_id = e,
       certification_url = f\<rparr> }"

record CanonicalResume =
  contact :: ContactInfo
  summary :: "str option"
  technical_skills :: TechnicalSkills
  projects :: "Project list"
  education :: "Education list"
  experience :: "Experience list"
  certifications :: "Certification list"
  additional_info :: "str option"

definition CanonicalResume_new ::
  "(str \<Rightarrow> str) \<Rightarrow> (str \<Rightarrow> str option) \<Rightarrow> dict \<Rightarrow> CanonicalResume option" where
  "CanonicalResume_new lower email_str d = do {
     a \<leftarrow> required d (py ''contact'') (as_model (ContactInfo_new email_str));
     b \<leftarrow> optional d (py ''summary'') as_str;
     c \<leftarrow> defaulted d (py ''technical_skills'')
           \<lparr>languages = [], frameworks_libraries = [], tools_platforms = [], databases = [],
            other = []\<rparr>
           (as_model TechnicalSkills_new);
     e \<leftarrow> defaulted d (py ''projects'') [] (as_model_list (Project_new lower));
     f \<leftarrow> defaulted d (py ''education'') [] (as_model_list Education_new);
     g \<leftarrow> defaulted d (py ''experience'') [] (as_model_list Experience_new);
     h \<leftarrow> defaulted d (py ''certifications'') [] (as_model_list Certification_new);
     i \<leftarrow> optional d (py ''additional_info'') as_str;
     Some \<lparr>contact = a, summary = b, technical_skills = c, projects = e, education = f,
       experience = g, certifications = h, additional_info = i\<rparr> }"

record DecisionLogEntry =
  section_name :: str
  action :: str
  items :: "str list"
  reason :: str
  entry_source :: str
  confidence :: str

definition DecisionLogEntry_new :: "(str \<Rightarrow> str) \<Rightarrow> dict \<Rightarrow> DecisionLogEntry option" where
  "DecisionLogEntry_new lower d = do {
     a \<leftarrow> required d (py ''section'') as_str;
     b \<leftarrow> required d (py ''action'') (\<lambda>j. as_str j \<bind> validate_action lower);
     c \<leftarrow> required d (py ''items'') as_str_list;
     e \<leftarrow> required d (py ''reason'') as_str;
     f \<leftarrow> required d (py ''source'') as_str;
     g \<leftarrow> required d (py ''confidence'') (\<lambda>j. as_str j \<bind> validate_confidence lower);
     Some \<lparr>section_name = a, action = b, items = c, reason = e, entry_source = f,
       confidence = g\<rparr> }"


section \<open>LLM service (\<open>app/services/llm_service.py\<close>)\<close>

subsection \<open>Schema reconciliation: \<open>_normalize_schema\<close>\<close>

text \<open>
  \<open>if canonical not in entry and alias in entry: entry[canonical] = entry.pop(alias)\<close>
\<close>

definition rename_alias :: "str \<Rightarrow> str \<Rightarrow> dict \<Rightarrow> dict" where
  "rename_alias canonical alias entry =
     (case (map_of entry canonical, map_of entry alias) of
        (None, Some v) \<Rightarrow> AList.update canonical v (AList.delete alias entry)
      | _ \<Rightarrow> entry)"

text \<open>The bodies of the three \<open>for entry in ...\<close> loops, for an entry that is a \<open>dict\<close>.\<close>

definition normalize_experience_entry :: "dict \<Rightarrow> dict" where
  "normalize_experience_entry entry =
     (let e1 = rename_alias (py ''role'') (py ''title'') entry;
          e2 = rename_alias (py ''organization'') (py ''company'') e1
      in case map_of e2 (py ''description'') of
           Some (JString s) \<Rightarrow> AList.update (py ''description'') (JArray [JString s]) e2
         | _ \<Rightarrow> e2)"

definition normalize_education_entry :: "dict \<Rightarrow> dict" where
  "normalize_education_entry entry =
     (let e1 = rename_alias (py ''institution'') (py ''school'') entry
      in rename_alias (py ''institution'') (py ''university'') e1)"

definition normalize_project_entry :: "dict \<Rightarrow> dict" where
  "normalize_project_entry entry =
     (let e1 = rename_alias (py ''highlights'') (py ''achievements'') entry
      in rename_alias (py ''highlights'') (py ''bullets'') e1)"

text \<open>
  One section of the resume: \<open>xs = resume.get(key, [])\<close>; if \<open>xs\<close> is a list, every
  element that is a \<open>dict\<close> is rewritten in place, the others are skipped.
\<close>

definition normalize_entries :: "(dict \<Rightarrow> dict) \<Rightarrow> json list \<Rightarrow> json list" where
  "normalize_entries f entries =
     map (\<lambda>entry. case entry of JObject d \<Rightarrow> JObject (f d) | _ \<Rightarrow> entry) entries"

definition normalize_section :: "str \<Rightarrow> (dict \<Rightarrow> dict) \<Rightarrow> dict \<Rightarrow> dict" where
  "normalize_section key f resume =
     (case map_of resume key of
        Some (JArray entries) \<Rightarrow> AList.update key (JArray (normalize_entries f entries)) resume
      | _ \<Rightarrow> resume)"

text \<open>
  \<open>_normalize_schema\<close> mutates \<open>data\<close>; the model returns the mutated value. A \<open>.get\<close> on a
  value that is not a \<open>dict\<close> raises \<open>AttributeError\<close>.
\<close>

definition normalize_schema :: "json \<Rightarrow> error + json" where
  "normalize_schema data =
     (case data of
        JObject d \<Rightarrow>
          (let resume = dict_get d (py ''structured_resume'') (JObject [])
           in if \<not> truthy resume then Inr data
              else case resume of
                     JObject r \<Rightarrow>
                       (let r1 = normalize_section (py ''experience'') normalize_experience_entry r;
                            r2 = normalize_section (py ''education'') normalize_education_entry r1;
                            r3 = normalize_section (py ''projects'') normalize_project_entry r2
                        in Inr (JObject (AList.update (py ''structured_resume'') (JObject r3) d)))
                   | _ \<Rightarrow> Inl AttributeError)
      | _ \<Rightarrow> Inl AttributeError)"

subsection \<open>Response recovery: \<open>_attempt_json_repair\<close>\<close>

text \<open>
  \<open>json.loads\<close> is a parameter \<open>loads\<close>. A call returns the parsed value, raises
  \<open>json.JSONDecodeError\<close> (the text is not JSON), or raises something else: a
  \<open>RecursionError\<close> on a text nested too deeply, a plain \<open>ValueError\<close> on an integer literal
  of more digits than \<open>int\<close> converts. Only the second is caught by an
  \<open>except json.JSONDecodeError\<close> clause.
\<close>

datatype loads_result =
    Loaded json
  | JSONDecodeError
  | Raised error

definition markers :: "str list" where
  \<open>markers = [py ''{"structured_resume":'', py ''"structured_resume":'', py ''{'']\<close>

fun repair_loop :: "(str \<Rightarrow> loads_result) \<Rightarrow> str \<Rightarrow> str list \<Rightarrow> error + json" where
  "repair_loop loads content [] = Inl NoValidJSON"
| "repair_loop loads content (marker # rest) =
     (case str_find marker content of
        None \<Rightarrow> repair_loop loads content rest
      | Some start \<Rightarrow>
          (let endi = (case str_rfind (py ''}'') content of None \<Rightarrow> 0 | Some i \<Rightarrow> i + 1)
           in if endi > start then
                (let candidate = slice content start endi;
                     candidate = (if \<not> prefix (py ''{'') candidate
                                  then py ''{'' @ candidate else candidate)
                 in case loads candidate of
                      Loaded parsed \<Rightarrow> Inr parsed
                    | JSONDecodeError \<Rightarrow> repair_loop loads content rest
                    | Raised e \<Rightarrow> Inl e)
              else repair_loop loads content rest))"

definition attempt_json_repair :: "(str \<Rightarrow> loads_result) \<Rightarrow> str \<Rightarrow> error + json" where
  "attempt_json_repair loads content = repair_loop loads content markers"


subsection \<open>Validation: \<open>_parse_response\<close>\<close>

text \<open>The events the service hands to its logger, by event name.\<close>

datatype log_event =
    calling_llm
  | llm_response_received
  | llm_api_error
  | attempting_json_repair
  | json_parse_failed
  | invalid_decision_entry json
  | schema_validation_error

text \<open>
  \<open>for entry in x\<close> on a JSON value: a list yields its elements, a string its characters,
  a \<open>dict\<close> its keys; anything else is not iterable.
\<close>

definition iterate :: "json \<Rightarrow> error + json list" where
  "iterate x =
     (case x of
        JArray xs \<Rightarrow> Inr xs
      | JString s \<Rightarrow> Inr (map (\<lambda>c. JString [c]) s)
      | JObject d \<Rightarrow> Inr (map (\<lambda>kv. JString (fst kv)) d)
      | _ \<Rightarrow> Inl TypeError)"

text \<open>
  \<open>Model(**x)\<close>: a value that is not a mapping raises \<open>TypeError\<close>, a mapping that does not
  validate raises \<open>ValidationError\<close>.
\<close>

definition construct :: "(dict \<Rightarrow> 'a option) \<Rightarrow> json \<Rightarrow> error + 'a" where
  "construct model x =
     (case x of
        JObject kwargs \<Rightarrow> (case model kwargs of Some obj \<Rightarrow> Inr obj | None \<Rightarrow> Inl ValidationError)
      | _ \<Rightarrow> Inl TypeError)"

text \<open>
  The first \<open>try\<close> of \<open>_parse_response\<close>: a direct parse, then the repair. The result comes
  with the events logged on the way. An exception of the direct parse other than
  \<open>JSONDecodeError\<close> leaves \<open>_parse_response\<close> at once; an exception of the repair is logged
  and raised again when it is a \<open>ValueError\<close>, and passes through unlogged otherwise.
\<close>

definition load_or_repair ::
  "(str \<Rightarrow> loads_result) \<Rightarrow> str \<Rightarrow> (error + json) \<times> log_event list" where
  "load_or_repair loads content =
     (case loads content of
        Loaded parsed \<Rightarrow> (Inr parsed, [])
      | Raised e \<Rightarrow> (Inl e, [])
      | JSONDecodeError \<Rightarrow>
          (case attempt_json_repair loads content of
             Inr parsed \<Rightarrow> (Inr parsed, [attempting_json_repair])
           | Inl e \<Rightarrow>
               if is_ValueError e then (Inl e, [attempting_json_repair, json_parse_failed])
               else (Inl e, [attempting_json_repair])))"

text \<open>
  The loop over the decision log: an entry whose construction raises is logged and left
  out.
\<close>

fun decision_entries ::
  "(dict \<Rightarrow> 'e option) \<Rightarrow> json list \<Rightarrow> 'e list \<times> log_event list" where
  "decision_entries model [] = ([], [])"
| "decision_entries model (entry # rest) =
     (let (decision_log, events) = decision_entries model rest
      in case construct model entry of
           Inr obj \<Rightarrow> (obj # decision_log, events)
         | Inl e \<Rightarrow> (decision_log, invalid_decision_entry entry # events))"

text \<open>The body of the second \<open>try\<close>; \<open>Inl e\<close> is the exception its \<open>except\<close> clause catches.\<close>

definition validate_parsed ::
  "(dict \<Rightarrow> 'r option) \<Rightarrow> (dict \<Rightarrow> 'e option) \<Rightarrow> json
     \<Rightarrow> (error + 'r \<times> 'e list) \<times> log_event list" where
  "validate_parsed resume_model entry_model parsed =
     (case normalize_schema parsed of
        Inl e \<Rightarrow> (Inl e, [])
      | Inr parsed' \<Rightarrow>
          (case parsed' of
             JObject d \<Rightarrow>
               (let resume_data = dict_get d (py ''structured_resume'') (JObject [])
                in case construct resume_model resume_data of
                     Inl e \<Rightarrow> (Inl e, [])
                   | Inr structured_resume \<Rightarrow>
                       (let decision_log_data = dict_get d (py ''decision_log'') (JArray [])
                        in case iterate decision_log_data of
                             Inl e \<Rightarrow> (Inl e, [])
                           | Inr entries \<Rightarrow>
                               (let (decision_log, events) = decision_entries entry_model entries
                                in (Inr (structured_resume, decision_log), events))))
           | _ \<Rightarrow> (Inl AttributeError, [])))"

definition parse_response ::
  "(str \<Rightarrow> loads_result) \<Rightarrow> (dict \<Rightarrow> 'r option) \<Rightarrow> (dict \<Rightarrow> 'e option) \<Rightarrow> str
     \<Rightarrow> (error + 'r \<times> 'e list) \<times> log_event list" where
  "parse_response loads resume_model entry_model content =
     (case load_or_repair loads content of
        (Inl e, events) \<Rightarrow> (Inl e, events)
      | (Inr parsed, events) \<Rightarrow>
          (case validate_parsed resume_model entry_model parsed of
             (Inl e, events') \<Rightarrow>
               (Inl (SchemaMismatch e), events @ events' @ [schema_validation_error])
           | (Inr result, events') \<Rightarrow> (Inr result, events @ events')))"

subsection \<open>The entry point: \<open>structure_resume\<close>\<close>

text \<open>
  What the service changes: the cached system prompt, the requests sent to the model
  (system and user prompt of each), and the log.
\<close>

record service =
  system_prompt :: "str option"
  llm_calls :: "(str \<times> str) list"
  log :: "log_event list"

text \<open>
  What the service is given: the prompt file (if it exists) and the inline default prompt,
  the prompt builder, the model (an exception inside the \<open>try\<close> around the call, with its
  message, or the \<open>content\<close> of the first choice, which may be \<open>None\<close>), \<open>json.loads\<close> and
  the two models of the schema.
\<close>

record ('g, 's, 'r, 'e) llm_env =
  prompt_file :: "str option"
  default_system_prompt :: str
  build_user_prompt :: "str option \<Rightarrow> 'g option \<Rightarrow> str option \<Rightarrow> 's option \<Rightarrow> error + str"
  complete :: "str \<Rightarrow> str \<Rightarrow> str + str option"
  json_loads :: "str \<Rightarrow> loads_result"
  resume_model :: "dict \<Rightarrow> 'r option"
  entry_model :: "dict \<Rightarrow> 'e option"

definition load_system_prompt ::
  "('g, 's, 'r, 'e) llm_env \<Rightarrow> service \<Rightarrow> str \<times> service" where
  "load_system_prompt env s =
     (case system_prompt s of
        Some p \<Rightarrow> (p, s)
      | None \<Rightarrow>
          (let p = (case prompt_file env of Some text \<Rightarrow> text | None \<Rightarrow> default_system_prompt env)
           in (p, s\<lparr>system_prompt := Some p\<rparr>)))"

text \<open>The cleaning of the model's text before it is parsed (markdown fences).\<close>

definition clean_content :: "str \<Rightarrow> str" where
  "clean_content content =
     (let c0 = strip content;
          c1 = (if prefix (py ''```json'') c0 then drop 7 c0 else c0);
          c2 = (if suffix (py ''```'') c1 then take (length c1 - 3) c1 else c1)
      in strip c2)"

text \<open>
  \<open>not resume_text\<close> holds for \<open>None\<close> and the empty string, \<open>not github_data\<close> for \<open>None\<close>
  and the empty \<open>dict\<close>.
\<close>

definition no_text :: "str option \<Rightarrow> bool" where
  "no_text t \<longleftrightarrow> (case t of None \<Rightarrow> True | Some s \<Rightarrow> s = [])"

definition no_data :: "dict option \<Rightarrow> bool" where
  "no_data g \<longleftrightarrow> (case g of None \<Rightarrow> True | Some d \<Rightarrow> d = [])"

definition structure_resume ::
  "(dict, 's, 'r, 'e) llm_env \<Rightarrow> str option \<Rightarrow> dict option \<Rightarrow> str option \<Rightarrow> 's option
     \<Rightarrow> service \<Rightarrow> (error + 'r \<times> 'e list) \<times> service" where
  "structure_resume env resume_text github_data custom_instructions settings s =
     (if no_text resume_text \<and> no_data github_data then (Inl NoDataSource, s)
      else
        let (p0, s0) = load_system_prompt env s;
            (system_prompt, s1) = load_system_prompt env s0
        in case build_user_prompt env resume_text github_data custom_instructions settings of
             Inl e \<Rightarrow> (Inl e, s1)
           | Inr user_prompt \<Rightarrow>
               (let s2 = s1\<lparr>log := log s1 @ [calling_llm]\<rparr>;
                    s3 = s2\<lparr>llm_calls := llm_calls s2 @ [(system_prompt, user_prompt)]\<rparr>
                in case complete env system_prompt user_prompt of
                     Inl msg \<Rightarrow> (Inl (LLMApiError msg), s3\<lparr>log := log s3 @ [llm_api_error]\<rparr>)
                   | Inr content \<Rightarrow>
                       (let s4 = s3\<lparr>log := log s3 @ [llm_response_received]\<rparr>
                        in case content of
                             None \<Rightarrow> (Inl AttributeError, s4)
                           | Some text \<Rightarrow>
                               (let (result, events) =
                                      parse_response (json_loads env) (resume_model env)
                                        (entry_model env) (clean_content text)
                                in (result, s4\<lparr>log := log s4 @ events\<rparr>)))))"


section \<open>Text sanitizer (\<open>app/core/utils.py\<close>)\<close>

text \<open>
  \<open>sanitize_text\<close> receives \<open>None\<close> from some callers (a missing repository description),
  so its argument is optional; \<open>not text\<close> holds for \<open>None\<close> and for the empty string.
  \<open>str.isprintable\<close> is a property of the Unicode character database and is a parameter.
\<close>

definition sanitize_text :: "(codepoint \<Rightarrow> bool) \<Rightarrow> str option \<Rightarrow> str" where
  "sanitize_text isprintable text =
     (case text of
        None \<Rightarrow> []
      | Some t \<Rightarrow>
          if t = [] then []
          else let t' = str_replace [NUL] [] t
               in filter (\<lambda>c. isprintable c \<or> c \<in> set [LF, CR, TAB]) t')"

section \<open>Format parsers (\<open>app/services/parsers\<close>)\<close>

subsection \<open>Markdown text clean-up: \<open>_clean_text\<close>\<close>

text \<open>
  The loop \<open>while "\n\n\n" in text: text = text.replace("\n\n\n", "\n\n")\<close>. Each round
  shortens the text, which is its termination argument.
\<close>

function collapse_blank_lines :: "str \<Rightarrow> str" where
  "collapse_blank_lines text =
     (if str_contains [LF, LF, LF] text
      then collapse_blank_lines (str_replace [LF, LF, LF] [LF, LF] text)
      else text)"
  by pat_completeness auto
termination
proof (relation "measure length")
  show "wf (measure length)" by simp
next
  fix t0 :: str
  assume c: "str_contains [LF, LF, LF] t0"
  have le: "length (str_replace [LF, LF, LF] [LF, LF] t) \<le> length t" for t
  proof (induction t rule: length_induct)
    case (1 t)
    show ?case
    proof (cases "prefix [LF, LF, LF] t")
      case True
      then obtain r where r: "t = [LF, LF, LF] @ r" by (auto simp: prefix_def)
      have "str_replace [LF, LF, LF] [LF, LF] t = [LF, LF] @ str_replace [LF, LF, LF] [LF, LF] r"
        using True r by (subst str_replace.simps) simp
      then show ?thesis using 1 [rule_format, of r] r by simp
    next
      case False
      show ?thesis
      proof (cases t)
        case Nil
        then show ?thesis by (simp add: str_replace.simps)
      next
        case (Cons x xs)
        have "str_replace [LF, LF, LF] [LF, LF] t = x # str_replace [LF, LF, LF] [LF, LF] xs"
          using False Cons by (subst str_replace.simps) auto
        then show ?thesis using 1 [rule_format, of xs] Cons by simp
      qed
    qed
  qed
  have lt: "str_find [LF, LF, LF] t \<noteq> None \<Longrightarrow>
      length (str_replace [LF, LF, LF] [LF, LF] t) < length t" for t
  proof (induction t)
    case Nil
    then show ?case by simp
  next
    case (Cons x xs)
    show ?case
    proof (cases "prefix [LF, LF, LF] (x # xs)")
      case True
      then obtain r where r: "x # xs = [LF, LF, LF] @ r" by (auto simp: prefix_def)
      have "str_replace [LF, LF, LF] [LF, LF] (x # xs) = [LF, LF] @ str_replace [LF, LF, LF] [LF, LF] r"
        using True r by (subst str_replace.simps) simp
      then show ?thesis using le [of r] r by simp
    next
      case False
      then have "str_find [LF, LF, LF] xs \<noteq> None" using Cons.prems by auto
      then have "length (str_replace [LF, LF, LF] [LF, LF] xs) < length xs" by (rule Cons.IH)
      moreover have "str_replace [LF, LF, LF] [LF, LF] (x # xs) = x # str_replace [LF, LF, LF] [LF, LF] xs"
        using False by (subst str_replace.simps) auto
      ultimately show ?thesis by simp
    qed
  qed
  show "(str_replace [LF, LF, LF] [LF, LF] t0, t0) \<in> measure length"
    using lt [of t0] c by (simp add: str_contains_def)
qed

declare collapse_blank_lines.simps [simp del]

text \<open>\<open>_clean_text\<close>: line endings, then the loop, then \<open>strip\<close>.\<close>

definition clean_text :: "str \<Rightarrow> str" where
  "clean_text text =
     (let text = str_replace [CR] [LF] (str_replace [CR, LF] [LF] text);
          text = collapse_blank_lines text
      in strip text)"


subsection \<open>Decoding: \<open>_decode_content\<close>\<close>

text \<open>
  File content is a list of bytes. \<open>content.decode(encoding)\<close> either returns text or
  raises \<open>UnicodeDecodeError\<close> (\<open>None\<close>). The UTF-8, UTF-8-with-BOM and CP1252 codecs are
  parameters; Latin-1 maps every byte to the code point of the same value. The last
  resort \<open>content.decode("utf-8", errors="ignore")\<close> is a parameter too, and the model
  even lets it fail (\<open>Inl\<close>), so that nothing about decoding is assumed.
\<close>

type_synonym byte = "8 word"
type_synonym bytes = "byte list"

datatype encoding = UTF_8 | UTF_8_SIG | LATIN_1 | CP1252

record codecs =
  utf_8 :: "bytes \<Rightarrow> str option"
  utf_8_sig :: "bytes \<Rightarrow> str option"
  cp1252 :: "bytes \<Rightarrow> str option"
  utf_8_ignore :: "bytes \<Rightarrow> unit + str"

definition decode :: "codecs \<Rightarrow> encoding \<Rightarrow> bytes \<Rightarrow> str option" where
  "decode cs enc content =
     (case enc of
        UTF_8 \<Rightarrow> utf_8 cs content
      | UTF_8_SIG \<Rightarrow> utf_8_sig cs content
      | LATIN_1 \<Rightarrow> Some (map unat content)
      | CP1252 \<Rightarrow> cp1252 cs content)"

text \<open>The loop over the encodings, with the last resort after it.\<close>

fun decode_loop :: "codecs \<Rightarrow> encoding list \<Rightarrow> bytes \<Rightarrow> unit + str" where
  "decode_loop cs [] content = utf_8_ignore cs content"
| "decode_loop cs (encoding # rest) content =
     (case decode cs encoding content of
        Some t \<Rightarrow> Inr t
      | None \<Rightarrow> decode_loop cs rest content)"

definition decode_content :: "codecs \<Rightarrow> bytes \<Rightarrow> unit + str" where
  "decode_content cs content = decode_loop cs [UTF_8, UTF_8_SIG, LATIN_1, CP1252] content"

subsection \<open>Results and verdicts (\<open>base.py\<close>)\<close>

text \<open>
  \<open>ParseResult\<close> with its \<open>__post_init__\<close>: a missing warning list becomes empty, a
  character count of 0 becomes the length of the text. \<open>can_handle\<close> compares the
  lower-cased suffix of the file name (\<open>pathlib\<close>, a parameter) with the extensions of
  the parser.
\<close>

record ParseResult =
  result_text :: str
  page_count :: int
  character_count :: int
  warnings :: "str list"

definition ParseResult_new :: "str \<Rightarrow> int \<Rightarrow> int \<Rightarrow> str list option \<Rightarrow> ParseResult" where
  "ParseResult_new t pages chars ws =
     \<lparr>result_text = t, page_count = pages,
      character_count = (if chars = 0 then int (length t) else chars),
      warnings = (case ws of None \<Rightarrow> [] | Some w \<Rightarrow> w)\<rparr>"

definition can_handle :: "(str \<Rightarrow> str) \<Rightarrow> str list \<Rightarrow> str \<Rightarrow> bool" where
  "can_handle get_extension supported filename \<longleftrightarrow> get_extension filename \<in> set supported"

text \<open>
  \<open>validate_file\<close> returns \<open>(is_valid, error_message)\<close>; the messages are named by
  constructors: "Invalid file extension", "File is empty", "File too large", "File
  contains no readable text", "File does not appear to be valid LaTeX", "Failed to read
  file", "File does not appear to be a valid PDF", "PDF is password protected", "PDF
  validation failed". Beside the verdict the model returns the library calls made on the
  content, in order: a call of \<open>_decode_content\<close>, an opening of a \<open>PdfReader\<close>.
\<close>

datatype rejection =
    InvalidExtension
  | FileEmpty
  | FileTooLarge
  | NoReadableText
  | NotLatex
  | FailedToRead
  | NotPdf
  | PasswordProtected
  | PdfValidationFailed

datatype library_call = DecodeContent | OpenPdfReader

subsection \<open>Markdown parser (\<open>markdown_parser.py\<close>)\<close>

text \<open>
  \<open>MAX_FILE_SIZE = 1024 * 1024\<close> is declared by the Markdown parser and, with the same
  value, by the LaTeX parser. The PDF parser declares none.
\<close>

definition MAX_FILE_SIZE :: nat where
  "MAX_FILE_SIZE = 1024 * 1024"

definition markdown_extensions :: "str list" where
  "markdown_extensions = [py ''.md'', py ''.markdown'']"

definition markdown_parse :: "codecs \<Rightarrow> bytes \<Rightarrow> str \<Rightarrow> unit + ParseResult" where
  "markdown_parse cs file_content filename =
     (case decode_content cs file_content of
        Inl e \<Rightarrow> Inl e
      | Inr t \<Rightarrow>
          (let t = clean_text t
           in Inr (ParseResult_new t 1 (int (length t)) None)))"

definition markdown_validate_file ::
  "(str \<Rightarrow> str) \<Rightarrow> codecs \<Rightarrow> bytes \<Rightarrow> str \<Rightarrow> (bool \<times> rejection option) \<times> library_call list" where
  "markdown_validate_file get_extension cs file_content filename =
     (if \<not> can_handle get_extension markdown_extensions filename
        then ((False, Some InvalidExtension), [])
      else if file_content = [] then ((False, Some FileEmpty), [])
      else if length file_content > MAX_FILE_SIZE then ((False, Some FileTooLarge), [])
      else case decode_content cs file_content of
             Inr t \<Rightarrow>
               if strip t = [] then ((False, Some NoReadableText), [DecodeContent])
               else ((True, None), [DecodeContent])
           | Inl e \<Rightarrow> ((False, Some FailedToRead), [DecodeContent]))"

subsection \<open>LaTeX parser (\<open>latex_parser.py\<close>)\<close>

text \<open>
  \<open>_extract_text\<close> is a chain of \<open>re.sub\<close> and \<open>re.search\<close> calls on the decoded text; it
  reads no bytes and is a parameter here.
\<close>

definition latex_extensions :: "str list" where
  "latex_extensions = [py ''.tex'', py ''.latex'']"

definition latex_parse :: "(str \<Rightarrow> str) \<Rightarrow> codecs \<Rightarrow> bytes \<Rightarrow> str \<Rightarrow> unit + ParseResult" where
  "latex_parse extract_text cs file_content filename =
     (case decode_content cs file_content of
        Inl e \<Rightarrow> Inl e
      | Inr t \<Rightarrow>
          (let extracted = extract_text t;
               ws = (if str_contains (BACKSLASH # py ''begin{tikzpicture}'') t
                        \<or> str_contains (BACKSLASH # py ''includegraphics'') t
                     then [py ''Graphics/diagrams in LaTeX file were not extracted'']
                     else [])
           in Inr (ParseResult_new extracted 1 (int (length extracted)) (Some ws))))"

definition latex_validate_file ::
  "(str \<Rightarrow> str) \<Rightarrow> codecs \<Rightarrow> bytes \<Rightarrow> str \<Rightarrow> (bool \<times> rejection option) \<times> library_call list" where
  "latex_validate_file get_extension cs file_content filename =
     (if \<not> can_handle get_extension latex_extensions filename
        then ((False, Some InvalidExtension), [])
      else if file_content = [] then ((False, Some FileEmpty), [])
      else if length file_content > MAX_FILE_SIZE then ((False, Some FileTooLarge), [])
      else case decode_content cs file_content of
             Inr t \<Rightarrow>
               if strip t = [] then ((False, Some NoReadableText), [DecodeContent])
               else if \<not> str_contains [BACKSLASH] t then ((False, Some NotLatex), [DecodeContent])
               else ((True, None), [DecodeContent])
           | Inl e \<Rightarrow> ((False, Some FailedToRead), [DecodeContent]))"

subsection \<open>PDF parser (\<open>pdf_parser.py\<close>): \<open>validate_file\<close>\<close>

text \<open>
  What \<open>pypdf\<close> reports on the content: \<open>PdfReader(...)\<close> raises, or it opens the
  document and tells whether it is encrypted and, when \<open>len(reader.pages)\<close> does not
  raise, the number of pages.
\<close>

datatype pdf_reader_result = Raises | Opens bool "nat option"

definition pdf_extensions :: "str list" where
  "pdf_extensions = [py ''.pdf'']"

definition pdf_magic :: bytes where
  "pdf_magic = [0x25, 0x50, 0x44, 0x46]"

definition pdf_validate_file ::
  "(str \<Rightarrow> str) \<Rightarrow> (bytes \<Rightarrow> pdf_reader_result) \<Rightarrow> bytes \<Rightarrow> str
     \<Rightarrow> (bool \<times> rejection option) \<times> library_call list" where
  "pdf_validate_file get_extension pdf_reader file_content filename =
     (if \<not> can_handle get_extension pdf_extensions filename
        then ((False, Some InvalidExtension), [])
      else if file_content = [] then ((False, Some FileEmpty), [])
      else if \<not> prefix pdf_magic file_content then ((False, Some NotPdf), [])
      else case pdf_reader file_content of
             Raises \<Rightarrow> ((False, Some PdfValidationFailed), [OpenPdfReader])
           | Opens is_encrypted pages \<Rightarrow>
               if is_encrypted then ((False, Some PasswordProtected), [OpenPdfReader])
               else (case pages of
                       None \<Rightarrow> ((False, Some PdfValidationFailed), [OpenPdfReader])
                     | Some n \<Rightarrow> ((True, None), [OpenPdfReader])))"

section \<open>Repository ranking (\<open>app/services/github_service.py\<close>)\<close>

text \<open>
  The attributes of a fetched repository that filtering and scoring read, taken as data:
  \<open>description\<close> may be \<open>None\<close>; \<open>size\<close>, \<open>stargazers_count\<close> and \<open>forks_count\<close> are the
  counts GitHub reports (natural numbers); \<open>pushed_at\<close> is \<open>None\<close> or a time, here in
  microseconds, read without its time zone as the code does; \<open>topics\<close> is what
  \<open>get_topics()\<close> returns.
\<close>

record Repository =
  repo_name :: str
  archived :: bool
  fork :: bool
  description :: "str option"
  repo_size :: nat
  pushed_at :: "int option"
  stargazers_count :: nat
  forks_count :: nat
  topics :: "str list"

definition MAX_REPOS :: nat where
  "MAX_REPOS = 15"

text \<open>
  \<open>(now - pushed_at).days\<close> is the difference divided by one day, rounded down
  (a \<open>timedelta\<close> normalises to a possibly negative number of days).
\<close>

definition DAY :: int where
  "DAY = 24 * 60 * 60 * 1000000"

text \<open>\<open>not repo.description\<close>: the description is \<open>None\<close> or empty.\<close>

definition no_description :: "Repository \<Rightarrow> bool" where
  "no_description repo \<longleftrightarrow> (case description repo of None \<Rightarrow> True | Some d \<Rightarrow> d = [])"

definition should_include_repo :: "Repository \<Rightarrow> bool" where
  "should_include_repo repo =
     (if archived repo then False
      else if fork repo then False
      else if no_description repo \<and> repo_size repo = 0 then False
      else True)"

text \<open>
  \<open>_calculate_repo_score\<close>, with the clock reading \<open>now\<close> it takes. The Python score is a
  float that only ever holds small whole numbers, so it is an integer here.
\<close>

definition calculate_repo_score :: "int \<Rightarrow> Repository \<Rightarrow> int" where
  "calculate_repo_score now repo =
     (let score = 0;
          score = (case pushed_at repo of
                     None \<Rightarrow> score
                   | Some pushed \<Rightarrow>
                       (let days_since_update = (now - pushed) div DAY
                        in if days_since_update < 30 then score + 50
                           else if days_since_update < 90 then score + 30
                           else if days_since_update < 180 then score + 15
                           else score));
          score = score + int (min (stargazers_count repo * 5) 50);
          score = score + int (min (forks_count repo * 2) 20);
          score = (if \<not> no_description repo then score + 10 else score);
          score = (if topics repo \<noteq> [] then score + 10 else score);
          score = (if 10 < repo_size repo \<and> repo_size repo < 100000 then score + 5 else score)
      in score)"

text \<open>
  \<open>_fetch_repositories\<close>: filter, score (the clock is read once per scored repository:
  \<open>clock i\<close> is the reading for the \<open>i\<close>-th of them), sort by score with \<open>reverse=True\<close>
  (Python's sort is stable, also when reversed: \<open>sort_key\<close> on the negated score), keep
  the first \<open>MAX_REPOS\<close>, and extract the data of each (\<open>_extract_repo_data\<close>, which calls
  GitHub again, is a parameter).
\<close>

definition scored_repos :: "(nat \<Rightarrow> int) \<Rightarrow> Repository list \<Rightarrow> (Repository \<times> int) list" where
  "scored_repos clock all_repos =
     (let filtered_repos = filter should_include_repo all_repos
      in map (\<lambda>(i, repo). (repo, calculate_repo_score (clock i) repo))
           (enumerate 0 filtered_repos))"

definition top_repos :: "(nat \<Rightarrow> int) \<Rightarrow> Repository list \<Rightarrow> (Repository \<times> int) list" where
  "top_repos clock all_repos =
     take MAX_REPOS (sort_key (\<lambda>x. - snd x) (scored_repos clock all_repos))"

definition fetch_repositories ::
  "(Repository \<Rightarrow> 'd) \<Rightarrow> (nat \<Rightarrow> int) \<Rightarrow> Repository list \<Rightarrow> 'd list" where
  "fetch_repositories extract_repo_data clock all_repos =
     map (\<lambda>(repo, score). extract_repo_data repo) (top_repos clock all_repos)"

section \<open>The specification's wording, for comparison with the code\<close>

subsection \<open>Schema reconciliation\<close>

text \<open>
  Renaming of alias keys as the specification words it, on a dictionary read as a map:
  when the canonical key is absent, the first alias that is present (in the order given)
  gives its value to the canonical key and disappears; when the canonical key is present
  nothing changes. \<open>spec_wrap\<close> turns a string value under a key into a one-element list,
  and \<open>spec_section\<close> applies a rewriting of entries to the list stored under a key,
  leaving alone what is not a \<open>dict\<close> and any value that is not a list.
\<close>

definition spec_rename :: "str \<Rightarrow> str list \<Rightarrow> (str \<rightharpoonup> json) \<Rightarrow> (str \<rightharpoonup> json)" where
  "spec_rename canonical aliases m =
     (if m canonical \<noteq> None then m
      else case List.find (\<lambda>a. m a \<noteq> None) aliases of
             None \<Rightarrow> m
           | Some a \<Rightarrow> m(canonical := m a, a := None))"

definition spec_wrap :: "str \<Rightarrow> (str \<rightharpoonup> json) \<Rightarrow> (str \<rightharpoonup> json)" where
  "spec_wrap key m =
     (case m key of Some (JString s) \<Rightarrow> m(key \<mapsto> JArray [JString s]) | _ \<Rightarrow> m)"

definition spec_section :: "str \<Rightarrow> (dict \<Rightarrow> dict) \<Rightarrow> (str \<rightharpoonup> json) \<Rightarrow> (str \<rightharpoonup> json)" where
  "spec_section key f m =
     (case m key of
        Some (JArray entries) \<Rightarrow>
          m(key \<mapsto> JArray (map (\<lambda>x. case x of JObject e \<Rightarrow> JObject (f e) | _ \<Rightarrow> x) entries))
      | _ \<Rightarrow> m)"

subsection \<open>Response recovery\<close>

text \<open>
  Recovery as the specification words it. The candidate for an anchor is the substring
  from the first occurrence of the anchor to the last \<open>}\<close> of the text (when that \<open>}\<close> is
  not before the anchor), with a \<open>{\<close> prepended when it does not start with one. Recovery
  is the direct parse, else the first anchor in the given order whose candidate parses,
  else the terminal error; a parse that gives no value is a failure, whatever it raised.
\<close>

definition parsed_value :: "loads_result \<Rightarrow> json option" where
  "parsed_value r = (case r of Loaded parsed \<Rightarrow> Some parsed | _ \<Rightarrow> None)"

definition spec_candidate :: "str \<Rightarrow> str \<Rightarrow> str option" where
  "spec_candidate content anchor =
     (case (str_find anchor content, str_rfind (py ''}'') content) of
        (Some i, Some j) \<Rightarrow>
          if i \<le> j then
            (let sub = take (j + 1 - i) (drop i content)
             in Some (if prefix (py ''{'') sub then sub else py ''{'' @ sub))
          else None
      | _ \<Rightarrow> None)"

definition spec_recover :: "(str \<Rightarrow> loads_result) \<Rightarrow> str list \<Rightarrow> str \<Rightarrow> error + json" where
  "spec_recover loads anchors content =
     (case parsed_value (loads content) of
        Some parsed \<Rightarrow> Inr parsed
      | None \<Rightarrow>
          (case List.map_filter
                  (\<lambda>a. Option.bind (spec_candidate content a) (\<lambda>c. parsed_value (loads c))) anchors of
             parsed # _ \<Rightarrow> Inr parsed
           | [] \<Rightarrow> Inl NoValidJSON))"

text \<open>
  Recovery with the failures told apart. The parses of the candidates are looked at in
  the order of the anchors: a decode error moves on to the next, a value is the result,
  any other exception is the outcome; with no candidate left the outcome is the terminal
  error. Recovery is the direct parse when it gives a value or raises anything but a
  decode error, and the outcome of the candidates after a decode error.
\<close>

fun first_outcome :: "loads_result list \<Rightarrow> error + json" where
  "first_outcome [] = Inl NoValidJSON"
| "first_outcome (Loaded parsed # rest) = Inr parsed"
| "first_outcome (JSONDecodeError # rest) = first_outcome rest"
| "first_outcome (Raised e # rest) = Inl e"

definition spec_recover_decode_errors ::
  "(str \<Rightarrow> loads_result) \<Rightarrow> str list \<Rightarrow> str \<Rightarrow> error + json" where
  "spec_recover_decode_errors loads anchors content =
     (case loads content of
        Loaded parsed \<Rightarrow> Inr parsed
      | Raised e \<Rightarrow> Inl e
      | JSONDecodeError \<Rightarrow>
          first_outcome (map loads (List.map_filter (spec_candidate content) anchors)))"

subsection \<open>Validation\<close>

text \<open>
  The entries of a decision log that construct (in order, as objects), and those that do
  not.
\<close>

definition valid_entries :: "(dict \<Rightarrow> 'e option) \<Rightarrow> json list \<Rightarrow> 'e list" where
  "valid_entries model entries =
     List.map_filter (\<lambda>x. case construct model x of Inr obj \<Rightarrow> Some obj | Inl e \<Rightarrow> None) entries"

definition invalid_entries :: "(dict \<Rightarrow> 'e option) \<Rightarrow> json list \<Rightarrow> json list" where
  "invalid_entries model entries = filter (\<lambda>x. isl (construct model x)) entries"

subsection \<open>Markdown clean-up\<close>

text \<open>
  Line endings in one pass: a \<open>\r\n\<close> pair becomes one \<open>\n\<close>, any other \<open>\r\<close> becomes
  \<open>\n\<close>. Newline runs: \<open>runs\<close> cuts a text into its maximal runs of equal characters
  (character and length), \<open>unruns\<close> puts them together again, and \<open>spec_collapse\<close> shortens
  every run of three or more \<open>\n\<close> to exactly two and keeps every other run as it is.
\<close>

fun spec_line_endings :: "str \<Rightarrow> str" where
  "spec_line_endings [] = []"
| "spec_line_endings [c] = [if c = CR then LF else c]"
| "spec_line_endings (c # d # r) =
     (if c = CR \<and> d = LF then LF # spec_line_endings r
      else (if c = CR then LF else c) # spec_line_endings (d # r))"

fun runs :: "'a list \<Rightarrow> ('a \<times> nat) list" where
  "runs [] = []"
| "runs (x # xs) =
     (case runs xs of
        [] \<Rightarrow> [(x, 1)]
      | (y, n) # rs \<Rightarrow> if x = y then (y, Suc n) # rs else (x, 1) # (y, n) # rs)"

definition unruns :: "('a \<times> nat) list \<Rightarrow> 'a list" where
  "unruns rs = concat (map (\<lambda>(c, n). replicate n c) rs)"

definition cap :: "codepoint \<times> nat \<Rightarrow> codepoint \<times> nat" where
  "cap = (\<lambda>(c, n). (c, if c = LF \<and> 3 \<le> n then 2 else n))"

definition spec_collapse :: "str \<Rightarrow> str" where
  "spec_collapse t = unruns (map cap (runs t))"

section \<open>Properties\<close>

subsection \<open>Text primitives\<close>

lemma py_eq_iff [simp]: "py a = py b \<longleftrightarrow> a = b"
  by (simp add: py_def inj_map_eq_map inj_on_def)

lemma py_Nil [simp]: "py [] = []"
  by (simp add: py_def)

lemma py_eq_Nil_iff [simp]: "py a = [] \<longleftrightarrow> a = []"
  by (simp add: py_def)

lemma str_replace_single_delete: "str_replace [x] [] t = filter (\<lambda>c. c \<noteq> x) t"
proof (induction t)
  case Nil
  show ?case by (simp add: str_replace.simps)
next
  case (Cons c cs)
  then show ?case by (subst str_replace.simps) simp
qed

subsection \<open>Text sanitizer\<close>

lemma sanitize_text_Some:
  "sanitize_text isprintable (Some t) = filter (\<lambda>c. c \<noteq> NUL \<and> (isprintable c \<or> c = LF \<or> c = CR \<or> c = TAB)) t"
  by (cases t) (auto simp: sanitize_text_def str_replace_single_delete Let_def)

lemma sanitize_text_set:
  "set (sanitize_text isprintable t) \<subseteq> {c. c \<noteq> NUL \<and> (isprintable c \<or> c = LF \<or> c = CR \<or> c = TAB)}"
proof (cases t)
  case None
  then show ?thesis by (simp add: sanitize_text_def)
next
  case (Some u)
  then show ?thesis by (auto simp: sanitize_text_Some)
qed

text \<open>
  C6. For every input (a string or \<open>None\<close>) and every classification \<open>isprintable\<close>:
  the result of \<open>sanitize_text\<close> contains no U+0000; each of its characters is printable
  or one of \<open>\n\<close>, \<open>\r\<close>, \<open>\t\<close>; a string that already has these two properties is
  returned unchanged; and sanitizing twice equals sanitizing once. The function has no
  failing branch.
\<close>

theorem sanitize_text_contract:
  "NUL \<notin> set (sanitize_text isprintable t)
   \<and> (\<forall>c \<in> set (sanitize_text isprintable t). isprintable c \<or> c = LF \<or> c = CR \<or> c = TAB)
   \<and> ((NUL \<notin> set s \<and> (\<forall>c \<in> set s. isprintable c \<or> c = LF \<or> c = CR \<or> c = TAB))
        \<longrightarrow> sanitize_text isprintable (Some s) = s)
   \<and> sanitize_text isprintable (Some (sanitize_text isprintable t)) = sanitize_text isprintable t"
proof (intro conjI impI)
  show "NUL \<notin> set (sanitize_text isprintable t)"
    using sanitize_text_set [of isprintable t] by auto
  show "\<forall>c \<in> set (sanitize_text isprintable t). isprintable c \<or> c = LF \<or> c = CR \<or> c = TAB"
    using sanitize_text_set [of isprintable t] by auto
  show "sanitize_text isprintable (Some s) = s"
    if "NUL \<notin> set s \<and> (\<forall>c \<in> set s. isprintable c \<or> c = LF \<or> c = CR \<or> c = TAB)"
  proof -
    have "\<forall>c \<in> set s. c \<noteq> NUL \<and> (isprintable c \<or> c = LF \<or> c = CR \<or> c = TAB)"
      using that by metis
    then show ?thesis
      unfolding sanitize_text_Some by (simp only: filter_True)
  qed
  show "sanitize_text isprintable (Some (sanitize_text isprintable t)) = sanitize_text isprintable t"
  proof (cases t)
    case None
    then show ?thesis by (simp add: sanitize_text_def)
  next
    case (Some u)
    then show ?thesis by (simp add: sanitize_text_Some)
  qed
qed

theorem sanitize_text_contract_witness:
  "sanitize_text (\<lambda>c. 32 \<le> c \<and> c < 127) (Some (py ''a'' @ [NUL, 1] @ py ''b'' @ [LF])) = py ''ab'' @ [LF]
   \<and> NUL \<notin> set (py ''ab'' @ [LF])
   \<and> list_all (\<lambda>c. (32 \<le> c \<and> c < 127) \<or> c = LF \<or> c = CR \<or> c = TAB) (py ''ab'' @ [LF])
   \<and> sanitize_text (\<lambda>c. 32 \<le> c \<and> c < 127) (Some (py ''ab'' @ [LF])) = py ''ab'' @ [LF]"
  using sanitize_text_contract [of "\<lambda>c. 32 \<le> c \<and> c < 127" "Some (py ''a'' @ [NUL, 1] @ py ''b'' @ [LF])"
      "py ''ab'' @ [LF]"]
  by (simp add: sanitize_text_Some py_def)

subsection \<open>Schema reconciliation\<close>

lemma map_of_rename_alias:
  "map_of (rename_alias c a e) = spec_rename c [a] (map_of e)"
  by (auto simp: rename_alias_def spec_rename_def update_conv' delete_conv' fun_eq_iff split: option.splits)

lemma spec_rename_two:
  "c \<noteq> a1 \<Longrightarrow> c \<noteq> a2 \<Longrightarrow> a1 \<noteq> a2 \<Longrightarrow> spec_rename c [a2] (spec_rename c [a1] m) = spec_rename c [a1, a2] m"
  by (auto simp: spec_rename_def fun_eq_iff split: option.splits)

lemma map_of_wrap:
  "map_of (case map_of e k of Some (JString s) \<Rightarrow> AList.update k (JArray [JString s]) e | _ \<Rightarrow> e)
   = spec_wrap k (map_of e)"
  by (auto simp: spec_wrap_def update_conv' split: option.splits json.splits)

lemma exp_entry: "map_of (normalize_experience_entry e) =
     spec_wrap (py ''description'')
       (spec_rename (py ''organization'') [py ''company'']
         (spec_rename (py ''role'') [py ''title''] (map_of e)))"
  unfolding normalize_experience_entry_def Let_def
  by (simp only: map_of_wrap) (simp only: map_of_rename_alias)

lemma edu_entry: "map_of (normalize_education_entry e) =
     spec_rename (py ''institution'') [py ''school'', py ''university''] (map_of e)"
  unfolding normalize_education_entry_def Let_def map_of_rename_alias
  by (rule spec_rename_two) simp_all

lemma proj_entry: "map_of (normalize_project_entry e) =
     spec_rename (py ''highlights'') [py ''achievements'', py ''bullets''] (map_of e)"
  unfolding normalize_project_entry_def Let_def map_of_rename_alias
  by (rule spec_rename_two) simp_all

lemma map_of_normalize_section:
  "map_of (normalize_section key f r) = spec_section key f (map_of r)"
  by (auto simp: normalize_section_def spec_section_def normalize_entries_def update_conv'
      split: option.splits json.splits)

lemma spec_rename_ran: "spec_rename c as m k = Some v \<Longrightarrow> \<exists>k'. m k' = Some v"
  by (auto simp: spec_rename_def split: option.splits if_splits)

lemma spec_rename_keeps: "m c = Some v \<Longrightarrow> spec_rename c as m c = Some v"
  by (simp add: spec_rename_def)


lemma spec_wrap_ran:
  "spec_wrap key m k = Some v \<Longrightarrow>
     (\<exists>k'. m k' = Some v) \<or> (\<exists>s. v = JArray [JString s] \<and> m key = Some (JString s))"
  by (auto simp: spec_wrap_def split: option.splits json.splits if_splits)

lemma normalize_schema_absent:
  "map_of d (py ''structured_resume'') = None \<Longrightarrow> normalize_schema (JObject d) = Inr (JObject d)"
  by (simp add: normalize_schema_def dict_get_def)

lemma normalize_schema_present:
  assumes "map_of d (py ''structured_resume'') = Some (JObject r)" and "r \<noteq> []"
  shows "\<exists>d' r'. normalize_schema (JObject d) = Inr (JObject d')
           \<and> map_of d' = (map_of d)(py ''structured_resume'' \<mapsto> JObject r')
           \<and> map_of r' =
               spec_section (py ''projects'') normalize_project_entry
                 (spec_section (py ''education'') normalize_education_entry
                   (spec_section (py ''experience'') normalize_experience_entry (map_of r)))"
proof -
  define r' where "r' = normalize_section (py ''projects'') normalize_project_entry
     (normalize_section (py ''education'') normalize_education_entry
       (normalize_section (py ''experience'') normalize_experience_entry r))"
  have "normalize_schema (JObject d) =
          Inr (JObject (AList.update (py ''structured_resume'') (JObject r') d))"
    using assms by (simp add: normalize_schema_def dict_get_def Let_def r'_def)
  moreover have "map_of (AList.update (py ''structured_resume'') (JObject r') d)
      = (map_of d)(py ''structured_resume'' \<mapsto> JObject r')"
    by (rule update_conv')
  moreover have "map_of r' =
               spec_section (py ''projects'') normalize_project_entry
                 (spec_section (py ''education'') normalize_education_entry
                   (spec_section (py ''experience'') normalize_experience_entry (map_of r)))"
    unfolding r'_def by (simp only: map_of_normalize_section)
  ultimately show ?thesis by blast
qed

text \<open>
  C4. Reconciliation, entry by entry and read as maps: an experience entry has \<open>title\<close>
  renamed to \<open>role\<close> and \<open>company\<close> to \<open>organization\<close>, each only when the canonical key
  is absent, and a string-valued \<open>description\<close> wrapped into a one-element list; an
  education entry has \<open>school\<close>, else \<open>university\<close>, renamed to \<open>institution\<close>; a project
  entry has \<open>achievements\<close>, else \<open>bullets\<close>, renamed to \<open>highlights\<close>. Every value of a
  rewritten entry is a value of the original entry (or the wrapped description). When
  \<open>structured_resume\<close> is absent the pass changes nothing; when it is a non-empty \<open>dict\<close>
  only that key changes, by the three rewritings applied to its \<open>experience\<close>,
  \<open>education\<close> and \<open>projects\<close> lists.
\<close>

theorem normalize_schema_reconciles:
  "map_of (normalize_experience_entry e) =
     spec_wrap (py ''description'')
       (spec_rename (py ''organization'') [py ''company'']
         (spec_rename (py ''role'') [py ''title''] (map_of e)))
   \<and> map_of (normalize_education_entry e) =
       spec_rename (py ''institution'') [py ''school'', py ''university''] (map_of e)
   \<and> map_of (normalize_project_entry e) =
       spec_rename (py ''highlights'') [py ''achievements'', py ''bullets''] (map_of e)
   \<and> (\<forall>k v. map_of (normalize_experience_entry e) k = Some v \<longrightarrow>
         v \<in> ran (map_of e) \<or>
         (\<exists>s. v = JArray [JString s] \<and> map_of e (py ''description'') = Some (JString s)))
   \<and> (\<forall>k v. map_of (normalize_education_entry e) k = Some v \<longrightarrow> v \<in> ran (map_of e))
   \<and> (\<forall>k v. map_of (normalize_project_entry e) k = Some v \<longrightarrow> v \<in> ran (map_of e))
   \<and> (map_of d (py ''structured_resume'') = None \<longrightarrow>
         normalize_schema (JObject d) = Inr (JObject d))
   \<and> (map_of d (py ''structured_resume'') = Some (JObject r) \<and> r \<noteq> [] \<longrightarrow>
         (\<exists>d' r'. normalize_schema (JObject d) = Inr (JObject d')
            \<and> map_of d' = (map_of d)(py ''structured_resume'' \<mapsto> JObject r')
            \<and> map_of r' =
                spec_section (py ''projects'') normalize_project_entry
                  (spec_section (py ''education'') normalize_education_entry
                    (spec_section (py ''experience'') normalize_experience_entry (map_of r)))))"
proof (intro conjI allI impI)
  show "map_of (normalize_experience_entry e) =
     spec_wrap (py ''description'')
       (spec_rename (py ''organization'') [py ''company'']
         (spec_rename (py ''role'') [py ''title''] (map_of e)))"
    by (rule exp_entry)
  show "map_of (normalize_education_entry e) =
       spec_rename (py ''institution'') [py ''school'', py ''university''] (map_of e)"
    by (rule edu_entry)
  show "map_of (normalize_project_entry e) =
       spec_rename (py ''highlights'') [py ''achievements'', py ''bullets''] (map_of e)"
    by (rule proj_entry)
  show "v \<in> ran (map_of e) \<or>
         (\<exists>s. v = JArray [JString s] \<and> map_of e (py ''description'') = Some (JString s))"
    if h: "map_of (normalize_experience_entry e) k = Some v" for k v
  proof -
    let ?m1 = "spec_rename (py ''role'') [py ''title''] (map_of e)"
    let ?m2 = "spec_rename (py ''organization'') [py ''company''] ?m1"
    have d1: "?m1 (py ''description'') = map_of e (py ''description'')"
      by (simp add: spec_rename_def split: option.splits)
    have d2: "?m2 (py ''description'') = ?m1 (py ''description'')"
      by (simp add: spec_rename_def split: option.splits)
    from h have "spec_wrap (py ''description'') ?m2 k = Some v"
      by (simp only: exp_entry)
    then consider k' where "?m2 k' = Some v"
      | s where "v = JArray [JString s]" "?m2 (py ''description'') = Some (JString s)"
      using spec_wrap_ran by blast
    then show ?thesis
    proof cases
      case 1
      then obtain k'' where "?m1 k'' = Some v" using spec_rename_ran by blast
      then obtain k3 where "map_of e k3 = Some v" using spec_rename_ran by blast
      then show ?thesis by (auto simp: ran_def)
    next
      case 2
      then show ?thesis using d1 d2 by simp
    qed
  qed
  show "v \<in> ran (map_of e)" if "map_of (normalize_education_entry e) k = Some v" for k v
    using that spec_rename_ran unfolding edu_entry ran_def by fast
  show "v \<in> ran (map_of e)" if "map_of (normalize_project_entry e) k = Some v" for k v
    using that spec_rename_ran unfolding proj_entry ran_def by fast
  show "normalize_schema (JObject d) = Inr (JObject d)"
    if "map_of d (py ''structured_resume'') = None"
    using that by (rule normalize_schema_absent)
  show "\<exists>d' r'. normalize_schema (JObject d) = Inr (JObject d')
            \<and> map_of d' = (map_of d)(py ''structured_resume'' \<mapsto> JObject r')
            \<and> map_of r' =
                spec_section (py ''projects'') normalize_project_entry
                  (spec_section (py ''education'') normalize_education_entry
                    (spec_section (py ''experience'') normalize_experience_entry (map_of r)))"
    if "map_of d (py ''structured_resume'') = Some (JObject r) \<and> r \<noteq> []"
    using that normalize_schema_present by blast
qed

theorem normalize_schema_reconciles_witness:
  "normalize_schema
     (JObject [(py ''structured_resume'', JObject [(py ''experience'', JArray [JObject
        [(py ''title'', JString (py ''Engineer'')), (py ''company'', JString (py ''Acme'')),
         (py ''description'', JString (py ''Did X''))]])])])
   = Inr (JObject [(py ''structured_resume'', JObject [(py ''experience'', JArray [JObject
        [(py ''description'', JArray [JString (py ''Did X'')]),
         (py ''role'', JString (py ''Engineer'')),
         (py ''organization'', JString (py ''Acme''))]])])])
   \<and> map_of (normalize_experience_entry
          [(py ''title'', JString (py ''Engineer'')), (py ''company'', JString (py ''Acme'')),
           (py ''description'', JString (py ''Did X''))])
       = [py ''role'' \<mapsto> JString (py ''Engineer''), py ''organization'' \<mapsto> JString (py ''Acme''),
          py ''description'' \<mapsto> JArray [JString (py ''Did X'')]]
   \<and> map_of (normalize_experience_entry
          [(py ''role'', JString (py ''Lead'')), (py ''title'', JString (py ''Engineer''))])
       = [py ''role'' \<mapsto> JString (py ''Lead''), py ''title'' \<mapsto> JString (py ''Engineer'')]
   \<and> map_of (normalize_education_entry
          [(py ''school'', JString (py ''MIT'')), (py ''university'', JString (py ''ETH''))])
       = [py ''institution'' \<mapsto> JString (py ''MIT''), py ''university'' \<mapsto> JString (py ''ETH'')]
   \<and> map_of (normalize_project_entry [(py ''bullets'', JArray [JString (py ''fast'')])])
       = [py ''highlights'' \<mapsto> JArray [JString (py ''fast'')]]
   \<and> JString (py ''MIT'') \<in> ran (map_of
          [(py ''school'', JString (py ''MIT'')), (py ''university'', JString (py ''ETH''))])
   \<and> map_of [(py ''decision_log'', JArray [])] (py ''structured_resume'') = None
   \<and> normalize_schema (JObject [(py ''decision_log'', JArray [])])
       = Inr (JObject [(py ''decision_log'', JArray [])])"
proof -
  let ?e = "[(py ''title'', JString (py ''Engineer'')), (py ''company'', JString (py ''Acme'')),
         (py ''description'', JString (py ''Did X''))]"
  let ?e2 = "[(py ''role'', JString (py ''Lead'')), (py ''title'', JString (py ''Engineer''))]"
  let ?edu = "[(py ''school'', JString (py ''MIT'')), (py ''university'', JString (py ''ETH''))]"
  let ?proj = "[(py ''bullets'', JArray [JString (py ''fast'')])]"
  have a: "normalize_schema
     (JObject [(py ''structured_resume'', JObject [(py ''experience'', JArray [JObject ?e])])])
   = Inr (JObject [(py ''structured_resume'', JObject [(py ''experience'', JArray [JObject
        [(py ''description'', JArray [JString (py ''Did X'')]),
         (py ''role'', JString (py ''Engineer'')),
         (py ''organization'', JString (py ''Acme''))]])])])"
    by (simp add: normalize_schema_def dict_get_def normalize_section_def normalize_entries_def
        normalize_experience_entry_def rename_alias_def)
  have b: "map_of (normalize_experience_entry ?e)
       = [py ''role'' \<mapsto> JString (py ''Engineer''), py ''organization'' \<mapsto> JString (py ''Acme''),
          py ''description'' \<mapsto> JArray [JString (py ''Did X'')]]"
    unfolding normalize_schema_reconciles [of ?e, THEN conjunct1]
    by (auto simp: spec_wrap_def spec_rename_def fun_eq_iff)
  have b2: "map_of (normalize_experience_entry ?e2)
       = [py ''role'' \<mapsto> JString (py ''Lead''), py ''title'' \<mapsto> JString (py ''Engineer'')]"
    unfolding normalize_schema_reconciles [of ?e2, THEN conjunct1]
    by (auto simp: spec_wrap_def spec_rename_def fun_eq_iff)
  have c: "map_of (normalize_education_entry ?edu)
       = [py ''institution'' \<mapsto> JString (py ''MIT''), py ''university'' \<mapsto> JString (py ''ETH'')]"
    unfolding normalize_schema_reconciles [of ?edu, THEN conjunct2, THEN conjunct1]
    by (auto simp: spec_rename_def fun_eq_iff)
  have d: "map_of (normalize_project_entry ?proj)
       = [py ''highlights'' \<mapsto> JArray [JString (py ''fast'')]]"
    unfolding normalize_schema_reconciles [of ?proj, THEN conjunct2, THEN conjunct2, THEN conjunct1]
    by (auto simp: spec_rename_def fun_eq_iff)
  have e: "JString (py ''MIT'') \<in> ran (map_of ?edu)"
    using normalize_schema_reconciles [of ?edu, THEN conjunct2, THEN conjunct2, THEN conjunct2,
        THEN conjunct2, THEN conjunct1, rule_format, of "py ''institution''" "JString (py ''MIT'')"]
    by (simp add: c)
  have n: "map_of [(py ''decision_log'', JArray [])] (py ''structured_resume'') = None"
    by simp
  have f: "normalize_schema (JObject [(py ''decision_log'', JArray [])])
       = Inr (JObject [(py ''decision_log'', JArray [])])"
    by (rule normalize_schema_reconciles [THEN conjunct2, THEN conjunct2, THEN conjunct2,
        THEN conjunct2, THEN conjunct2, THEN conjunct2, THEN conjunct1, rule_format, OF n])
  show ?thesis using a b b2 c d e n f by (intro conjI)
qed

subsection \<open>The precondition of \<open>structure_resume\<close>\<close>

text \<open>
  C2. Called with neither resume text nor GitHub data, \<open>structure_resume\<close> fails with the
  missing-data-source error and leaves the service as it was: no request has been sent
  to the model, nothing has been logged, no prompt has been loaded.
\<close>

theorem structure_resume_requires_source:
  "structure_resume env None None custom_instructions settings s = (Inl NoDataSource, s)
   \<and> llm_calls (snd (structure_resume env None None custom_instructions settings s)) = llm_calls s
   \<and> log (snd (structure_resume env None None custom_instructions settings s)) = log s"
  by (simp add: structure_resume_def no_text_def no_data_def)

text \<open>
  C10. An empty resume text counts as no resume text: with GitHub data absent or empty the
  call fails with the missing-data-source error before anything else happens.
\<close>

theorem structure_resume_empty_text:
  "structure_resume env (Some []) None custom_instructions settings s = (Inl NoDataSource, s)
   \<and> structure_resume env (Some []) (Some []) custom_instructions settings s = (Inl NoDataSource, s)"
  by (simp add: structure_resume_def no_text_def no_data_def)


text \<open>
  For contrast: with a data source present and a prompt built, exactly one request is
  recorded, carrying the loaded system prompt and the built user prompt.
\<close>

lemma structure_resume_calls_model:
  assumes "\<not> (no_text resume_text \<and> no_data github_data)"
    and "build_user_prompt env resume_text github_data custom_instructions settings = Inr user_prompt"
  shows "llm_calls (snd (structure_resume env resume_text github_data custom_instructions settings s))
         = llm_calls s @ [(fst (load_system_prompt env s), user_prompt)]"
  using assms
  by (auto simp: structure_resume_def load_system_prompt_def Let_def split_beta
      split: option.splits sum.splits prod.splits)

subsection \<open>Response recovery\<close>

lemma str_find_Some_iff:
  "str_find sub s = Some i \<longleftrightarrow>
     i \<le> length s \<and> prefix sub (drop i s) \<and> (\<forall>k<i. \<not> prefix sub (drop k s))"
proof (induction s arbitrary: i)
  case Nil
  then show ?case by auto
next
  case (Cons c cs)
  show ?case
  proof (cases "prefix sub (c # cs)")
    case True
    then show ?thesis by (cases i) auto
  next
    case False
    show ?thesis
    proof (cases i)
      case 0
      then show ?thesis using False by simp
    next
      case (Suc n)
      have "(\<forall>k<Suc n. \<not> prefix sub (drop k (c # cs))) \<longleftrightarrow> (\<forall>k<n. \<not> prefix sub (drop k cs))"
        using False by (auto simp: less_Suc_eq_0_disj)
      then show ?thesis using False Suc Cons.IH [of n] by auto
    qed
  qed
qed

lemma str_find_None_iff:
  "str_find sub s = None \<longleftrightarrow> (\<forall>k<Suc (length s). \<not> prefix sub (drop k s))"
proof (induction s)
  case Nil
  then show ?case by auto
next
  case (Cons c cs)
  have "(\<forall>k<Suc (length (c # cs)). \<not> prefix sub (drop k (c # cs))) \<longleftrightarrow>
        \<not> prefix sub (c # cs) \<and> (\<forall>k<Suc (length cs). \<not> prefix sub (drop k cs))"
    by (simp add: All_less_Suc2 [of "Suc (length cs)"])
  then show ?case using Cons by simp
qed

lemma str_rfind_bound: "str_rfind sub s = Some j \<Longrightarrow> j \<le> length s"
  by (induction s arbitrary: j) (auto split: option.splits if_splits)

lemma str_rfind_None_iff:
  "str_rfind sub s = None \<longleftrightarrow> (\<forall>k<Suc (length s). \<not> prefix sub (drop k s))"
proof (induction s)
  case Nil
  then show ?case by auto
next
  case (Cons c cs)
  have "(\<forall>k<Suc (length (c # cs)). \<not> prefix sub (drop k (c # cs))) \<longleftrightarrow>
        \<not> prefix sub (c # cs) \<and> (\<forall>k<Suc (length cs). \<not> prefix sub (drop k cs))"
    by (simp add: All_less_Suc2 [of "Suc (length cs)"])
  then show ?case using Cons by (auto split: option.splits)
qed

lemma str_rfind_Some_iff:
  "str_rfind sub s = Some j \<longleftrightarrow>
     j \<le> length s \<and> prefix sub (drop j s) \<and>
     (\<forall>k. j < k \<and> k \<le> length s \<longrightarrow> \<not> prefix sub (drop k s))"
proof (induction s arbitrary: j)
  case Nil
  then show ?case by auto
next
  case (Cons c cs)
  show ?case
  proof (cases "str_rfind sub cs")
    case None
    then have no: "\<And>k. k \<le> length cs \<Longrightarrow> \<not> prefix sub (drop k cs)"
      by (simp add: str_rfind_None_iff less_Suc_eq_le)
    show ?thesis
    proof (cases j)
      case 0
      have "(\<forall>k. 0 < k \<and> k \<le> Suc (length cs) \<longrightarrow> \<not> prefix sub (drop k (c # cs)))"
      proof (intro allI impI)
        fix k assume "0 < k \<and> k \<le> Suc (length cs)"
        then obtain k' where "k = Suc k'" "k' \<le> length cs" by (cases k) auto
        then show "\<not> prefix sub (drop k (c # cs))" using no by simp
      qed
      then show ?thesis using None 0 by auto
    next
      case (Suc n)
      then show ?thesis using None no [of n] by auto
    qed
  next
    case (Some i)
    then have i: "i \<le> length cs" "prefix sub (drop i cs)"
      "\<And>k. i < k \<Longrightarrow> k \<le> length cs \<Longrightarrow> \<not> prefix sub (drop k cs)"
      using Cons.IH [of i] by auto
    show ?thesis
    proof (cases j)
      case 0
      have "prefix sub (drop (Suc i) (c # cs))" "0 < Suc i" "Suc i \<le> length (c # cs)"
        using i by auto
      then have "\<not> (\<forall>k. 0 < k \<and> k \<le> length (c # cs) \<longrightarrow> \<not> prefix sub (drop k (c # cs)))"
        by blast
      then show ?thesis using Some 0 by simp
    next
      case (Suc n)
      have "(\<forall>k. Suc n < k \<and> k \<le> length (c # cs) \<longrightarrow> \<not> prefix sub (drop k (c # cs)))
            \<longleftrightarrow> (\<forall>k. n < k \<and> k \<le> length cs \<longrightarrow> \<not> prefix sub (drop k cs))"
      proof
        assume h: "\<forall>k. Suc n < k \<and> k \<le> length (c # cs) \<longrightarrow> \<not> prefix sub (drop k (c # cs))"
        show "\<forall>k. n < k \<and> k \<le> length cs \<longrightarrow> \<not> prefix sub (drop k cs)"
        proof (intro allI impI)
          fix k assume "n < k \<and> k \<le> length cs"
          then show "\<not> prefix sub (drop k cs)" using h [rule_format, of "Suc k"] by simp
        qed
      next
        assume h: "\<forall>k. n < k \<and> k \<le> length cs \<longrightarrow> \<not> prefix sub (drop k cs)"
        show "\<forall>k. Suc n < k \<and> k \<le> length (c # cs) \<longrightarrow> \<not> prefix sub (drop k (c # cs))"
        proof (intro allI impI)
          fix k assume a: "Suc n < k \<and> k \<le> length (c # cs)"
          then obtain k' where "k = Suc k'" by (cases k) auto
          then show "\<not> prefix sub (drop k (c # cs))" using h [rule_format, of k'] a by simp
        qed
      qed
      then show ?thesis using Some Suc Cons.IH [of n] by simp
    qed
  qed
qed


lemma repair_step:
  "repair_loop loads content (marker # rest) =
     (case spec_candidate content marker of
        None \<Rightarrow> repair_loop loads content rest
      | Some candidate \<Rightarrow>
          (case loads candidate of
             Loaded parsed \<Rightarrow> Inr parsed
           | JSONDecodeError \<Rightarrow> repair_loop loads content rest
           | Raised e \<Rightarrow> Inl e))"
  by (auto simp: spec_candidate_def slice_def Let_def split: option.splits loads_result.splits)

lemma repair_loop_spec:
  "repair_loop loads content ms =
     first_outcome (map loads (List.map_filter (spec_candidate content) ms))"
proof (induction ms)
  case Nil
  show ?case by (simp add: map_filter_simps)
next
  case (Cons m ms)
  show ?case
    unfolding repair_step Cons.IH
    by (simp add: map_filter_simps split: option.splits loads_result.splits)
qed

lemma load_or_repair_spec:
  "fst (load_or_repair loads content) = spec_recover_decode_errors loads markers content"
  by (simp add: load_or_repair_def spec_recover_decode_errors_def attempt_json_repair_def
      repair_loop_spec split: loads_result.splits sum.splits)

lemma parsed_value_simps:
  "parsed_value (Loaded parsed) = Some parsed"
  "parsed_value JSONDecodeError = None"
  "parsed_value (Raised e) = None"
  by (simp_all add: parsed_value_def)

lemma first_outcome_values:
  "(\<And>r e. r \<in> set rs \<Longrightarrow> r \<noteq> Raised e) \<Longrightarrow>
     first_outcome rs =
       (case List.map_filter parsed_value rs of parsed # _ \<Rightarrow> Inr parsed | [] \<Rightarrow> Inl NoValidJSON)"
proof (induction rs)
  case Nil
  show ?case by (simp add: map_filter_simps)
next
  case (Cons r rs)
  then have ih: "first_outcome rs =
      (case List.map_filter parsed_value rs of parsed # _ \<Rightarrow> Inr parsed | [] \<Rightarrow> Inl NoValidJSON)"
    by simp
  from Cons.prems have "\<forall>e. r \<noteq> Raised e" by simp
  then show ?case
    by (cases r) (simp_all add: map_filter_simps parsed_value_simps ih)
qed

lemma map_filter_candidates:
  "List.map_filter parsed_value (map loads (List.map_filter (spec_candidate content) anchors)) =
     List.map_filter (\<lambda>a. Option.bind (spec_candidate content a) (\<lambda>c. parsed_value (loads c)))
       anchors"
  by (induction anchors) (simp_all add: map_filter_simps split: option.splits)

lemma spec_recover_decode_errors_stated:
  assumes "\<And>c e. loads c \<noteq> Raised e"
  shows "spec_recover_decode_errors loads anchors content = spec_recover loads anchors content"
proof (cases "loads content")
  case (Loaded parsed)
  then show ?thesis
    by (simp add: spec_recover_decode_errors_def spec_recover_def parsed_value_simps)
next
  case JSONDecodeError
  have "first_outcome (map loads (List.map_filter (spec_candidate content) anchors)) =
      (case List.map_filter parsed_value (map loads (List.map_filter (spec_candidate content) anchors))
       of parsed # _ \<Rightarrow> Inr parsed | [] \<Rightarrow> Inl NoValidJSON)"
    by (rule first_outcome_values) (use assms in auto)
  then show ?thesis
    using JSONDecodeError
    by (simp add: spec_recover_decode_errors_def spec_recover_def parsed_value_simps
        map_filter_candidates)
next
  case (Raised e)
  then show ?thesis using assms by simp
qed

lemma parse_response_recovery_error:
  "spec_recover_decode_errors loads markers content = Inl e \<Longrightarrow>
     fst (parse_response loads rm em content) = Inl e"
  unfolding load_or_repair_spec [symmetric]
  by (cases "load_or_repair loads content") (auto simp: parse_response_def)

lemma parse_response_raised:
  "loads content = Raised e \<Longrightarrow> parse_response loads rm em content = (Inl e, [])"
  by (simp add: parse_response_def load_or_repair_def)

lemma str_find_absent:
  assumes "c \<in> set sub" and "c \<notin> set s"
  shows "str_find sub s = None"
proof -
  have "\<not> prefix sub (drop k s)" for k
  proof
    assume "prefix sub (drop k s)"
    then have "set sub \<subseteq> set (drop k s)" by (rule set_mono_prefix)
    then have "c \<in> set (drop k s)" using assms(1) by auto
    then have "c \<in> set s" by (rule in_set_dropD)
    then show False using assms(2) by simp
  qed
  then show ?thesis by (simp add: str_find_None_iff)
qed

lemma strip_fixed:
  assumes "s = [] \<or> (\<not> isspace (hd s) \<and> \<not> isspace (last s))"
  shows "strip s = s"
proof (cases s)
  case Nil
  then show ?thesis by (simp add: strip_def)
next
  case (Cons x xs)
  then have h: "\<not> isspace (hd s)" and l: "\<not> isspace (last s)" using assms by auto
  have 1: "dropWhile isspace s = s" using Cons h by simp
  have "rev s \<noteq> []" "hd (rev s) = last s" using Cons by (simp_all add: hd_rev)
  then obtain y ys where r: "rev s = y # ys" and y: "y = last s"
    by (cases "rev s") auto
  have "dropWhile isspace (y # ys) = y # ys"
    using l y by simp
  then have 2: "dropWhile isspace (rev s) = rev s"
    by (simp only: r)
  show ?thesis by (simp add: strip_def 1 2)
qed

lemma strip_ends:
  "strip s = [] \<or> (\<not> isspace (hd (strip s)) \<and> \<not> isspace (last (strip s)))"
proof -
  define t where "t = dropWhile isspace s"
  define w where "w = dropWhile isspace (rev t)"
  have u: "strip s = rev w" by (simp add: strip_def t_def w_def)
  show ?thesis
  proof (cases "w = []")
    case True
    then show ?thesis by (simp add: u)
  next
    case False
    then have hw: "\<not> isspace (hd w)" unfolding w_def by (rule hd_dropWhile)
    have tne: "t \<noteq> []" using False by (auto simp: w_def)
    then have ht: "\<not> isspace (hd t)" unfolding t_def by (rule hd_dropWhile)
    have "w = drop (length (takeWhile isspace (rev t))) (rev t)"
      unfolding w_def by (rule dropWhile_eq_drop)
    moreover from this False have "length (takeWhile isspace (rev t)) < length (rev t)"
      by (metis drop_all not_le_imp_less)
    ultimately have "last w = last (rev t)" by (metis last_drop)
    then have "last w = hd t" using tne by (simp add: last_rev)
    then show ?thesis using False hw ht by (simp add: u hd_rev last_rev)
  qed
qed

lemma strip_idem: "strip (strip s) = strip s"
  by (rule strip_fixed) (rule strip_ends)

lemma clean_content_both:
  "strip raw = py ''```json'' @ body @ py ''```'' \<Longrightarrow> clean_content raw = strip body"
  by (simp add: py_def clean_content_def Let_def suffix_def)

lemma clean_content_trailing:
  "\<not> prefix (py ''```json'') (strip raw) \<Longrightarrow> strip raw = body @ py ''```'' \<Longrightarrow>
     clean_content raw = strip body"
  by (simp add: py_def clean_content_def Let_def suffix_def)

lemma clean_content_leading:
  "strip raw = py ''```json'' @ body \<Longrightarrow> \<not> suffix (py ''```'') body \<Longrightarrow>
     clean_content raw = strip body"
  by (simp add: py_def clean_content_def Let_def)

lemma clean_content_none:
  "\<not> prefix (py ''```json'') (strip raw) \<Longrightarrow> \<not> suffix (py ''```'') (strip raw) \<Longrightarrow>
     clean_content raw = strip raw"
  by (simp add: py_def clean_content_def Let_def strip_idem)

lemma structure_resume_parses_cleaned:
  assumes "\<not> (no_text resume_text \<and> no_data github_data)"
    and "build_user_prompt env resume_text github_data custom_instructions settings = Inr user_prompt"
    and "complete env (fst (load_system_prompt env s)) user_prompt = Inr (Some text)"
  shows "fst (structure_resume env resume_text github_data custom_instructions settings s) =
         fst (parse_response (json_loads env) (resume_model env) (entry_model env)
                (clean_content text))"
  using assms
  by (auto simp: structure_resume_def load_system_prompt_def Let_def split_beta
      split: option.splits sum.splits prod.splits)


lemma prefix_single_drop:
  "prefix [c] (drop k s) \<longleftrightarrow> k < length s \<and> s ! k = c"
proof (cases "k < length s")
  case True
  then have "drop k s = s ! k # drop (Suc k) s" by (simp add: Cons_nth_drop_Suc)
  then show ?thesis using True by auto
next
  case False
  then show ?thesis by simp
qed

lemma str_rfind_char_iff:
  "str_rfind [c] s = Some j \<longleftrightarrow>
     j < length s \<and> s ! j = c \<and> (\<forall>k. j < k \<and> k < length s \<longrightarrow> s ! k \<noteq> c)"
  unfolding str_rfind_Some_iff prefix_single_drop by auto

text \<open>
  A text whose direct parse raises a decode error and whose only candidate, nested 100000
  deep, raises \<open>RecursionError\<close>.
\<close>

lemma recover_candidate_raises:
  \<open>spec_recover_decode_errors
      (\<lambda>s. if s = py ''{"a":'' @ replicate 100000 (of_char CHR ''['') @ py ''}''
           then Raised RecursionError else JSONDecodeError)
      [py ''{"structured_resume":'', py ''"structured_resume":'', py ''{'']
      (py ''x {"a":'' @ replicate 100000 (of_char CHR ''['') @ py ''}'') = Inl RecursionError\<close>
proof -
  define content :: str where
    \<open>content = py ''x {"a":'' @ replicate 100000 (of_char CHR ''['') @ py ''}''\<close>
  define candidate :: str where
    \<open>candidate = py ''{"a":'' @ replicate 100000 (of_char CHR ''['') @ py ''}''\<close>
  define loads where
    \<open>loads = (\<lambda>s. if s = candidate then Raised RecursionError else JSONDecodeError)\<close>
  have ne: \<open>content \<noteq> candidate\<close> by (simp add: content_def candidate_def py_def)
  have l: \<open>loads content = JSONDecodeError\<close> \<open>loads candidate = Raised RecursionError\<close>
    using ne by (simp_all add: loads_def)
  have s: \<open>of_char CHR ''s'' \<notin> set content\<close> by (simp add: content_def py_def)
  have f1: \<open>str_find (py ''{"structured_resume":'') content = None\<close>
    by (rule str_find_absent [of \<open>of_char CHR ''s''\<close>]) (simp add: py_def, rule s)
  have f2: \<open>str_find (py ''"structured_resume":'') content = None\<close>
    by (rule str_find_absent [of \<open>of_char CHR ''s''\<close>]) (simp add: py_def, rule s)
  have f3: \<open>str_find (py ''{'') content = Some 2\<close>
    by (simp add: content_def py_def)
  have r: \<open>str_rfind (py ''}'') content = Some 100007\<close>
    using str_rfind_char_iff [of \<open>of_char CHR ''}''\<close> content 100007]
    by (simp add: content_def py_def nth_append)
  have c: \<open>take 100006 (drop 2 content) = candidate\<close>
    by (simp add: content_def candidate_def py_def)
  have p: \<open>prefix (py ''{'') candidate\<close> by (simp add: candidate_def py_def)
  have n: \<open>List.map_filter (spec_candidate content)
      [py ''{"structured_resume":'', py ''"structured_resume":'', py ''{''] = [candidate]\<close>
    by (simp add: map_filter_simps spec_candidate_def f1 f2 f3 r c p Let_def)
  have \<open>spec_recover_decode_errors loads
      [py ''{"structured_resume":'', py ''"structured_resume":'', py ''{''] content
      = Inl RecursionError\<close>
    unfolding spec_recover_decode_errors_def n by (simp add: l)
  then show ?thesis unfolding loads_def candidate_def content_def .
qed

text \<open>
  C3. Recovery of the JSON object from the model's text is, in this order: the direct
  parse; then, when the direct parse raises a JSON decode error, for the anchors
  \<open>{"structured_resume":\<close>, \<open>"structured_resume":\<close> and \<open>{\<close> in turn, the parse of the substring
  from the first occurrence of the anchor to the last \<open>}\<close> of the text, with a \<open>{\<close>
  prepended when it does not start with one, moving to the next anchor on a decode error;
  and when no candidate is left the operation fails with the error "Could not extract
  valid JSON". Any other exception of the JSON parser, in the direct parse or in the parse
  of a candidate, ends the recovery and is the outcome of the operation; raised by the
  direct parse, it leaves before anything is logged. For a parser that raises nothing but
  decode errors this is the recovery of the specification. \<open>str_find\<close> gives the first
  occurrence and \<open>str_rfind\<close> the last. Before that, \<open>structure_resume\<close> strips the text,
  drops a leading \<open>```json\<close> and a trailing \<open>```\<close> when present, and strips again; the result
  is what is parsed.
\<close>

theorem response_recovery_order:
  \<open>fst (load_or_repair loads content) =
     spec_recover_decode_errors loads
       [py ''{"structured_resume":'', py ''"structured_resume":'', py ''{''] content
   \<and> ((\<forall>c e. loads c \<noteq> Raised e) \<longrightarrow>
       fst (load_or_repair loads content) =
         spec_recover loads [py ''{"structured_resume":'', py ''"structured_resume":'', py ''{'']
           content)
   \<and> (spec_recover_decode_errors loads
         [py ''{"structured_resume":'', py ''"structured_resume":'', py ''{''] content = Inl err \<longrightarrow>
       fst (parse_response loads rm em content) = Inl err)
   \<and> (loads content = Raised err \<longrightarrow> parse_response loads rm em content = (Inl err, []))
   \<and> (str_find anchor content = Some i \<longleftrightarrow>
         i \<le> length content \<and> prefix anchor (drop i content) \<and>
         (\<forall>k<i. \<not> prefix anchor (drop k content)))
   \<and> (str_rfind (py ''}'') content = Some j \<longleftrightarrow>
         j < length content \<and> content ! j = of_char CHR ''}'' \<and>
         (\<forall>k. j < k \<and> k < length content \<longrightarrow> content ! k \<noteq> of_char CHR ''}''))
   \<and> (strip raw = py ''```json'' @ body @ py ''```'' \<longrightarrow> clean_content raw = strip body)
   \<and> (strip raw = py ''```json'' @ body \<and> \<not> suffix (py ''```'') body \<longrightarrow>
         clean_content raw = strip body)
   \<and> (\<not> prefix (py ''```json'') (strip raw) \<and> strip raw = body @ py ''```'' \<longrightarrow>
         clean_content raw = strip body)
   \<and> (\<not> prefix (py ''```json'') (strip raw) \<and> \<not> suffix (py ''```'') (strip raw) \<longrightarrow>
         clean_content raw = strip raw)
   \<and> (\<not> (no_text resume_text \<and> no_data github_data) \<and>
       build_user_prompt env resume_text github_data custom_instructions settings = Inr user_prompt \<and>
       complete env (fst (load_system_prompt env s)) user_prompt = Inr (Some text) \<longrightarrow>
       fst (structure_resume env resume_text github_data custom_instructions settings s) =
       fst (parse_response (json_loads env) (resume_model env) (entry_model env)
              (clean_content text)))\<close>
proof (intro conjI impI)
  have m: \<open>[py ''{"structured_resume":'', py ''"structured_resume":'', py ''{''] = markers\<close>
    by (simp add: markers_def)
  show \<open>fst (load_or_repair loads content) =
     spec_recover_decode_errors loads
       [py ''{"structured_resume":'', py ''"structured_resume":'', py ''{''] content\<close>
    unfolding m by (rule load_or_repair_spec)
  show \<open>fst (load_or_repair loads content) =
         spec_recover loads [py ''{"structured_resume":'', py ''"structured_resume":'', py ''{'']
           content\<close>
    if \<open>\<forall>c e. loads c \<noteq> Raised e\<close>
    unfolding m load_or_repair_spec
    by (rule spec_recover_decode_errors_stated) (use that in simp)
  show \<open>fst (parse_response loads rm em content) = Inl err\<close>
    if \<open>spec_recover_decode_errors loads
         [py ''{"structured_resume":'', py ''"structured_resume":'', py ''{''] content = Inl err\<close>
    using that unfolding m by (rule parse_response_recovery_error)
  show \<open>parse_response loads rm em content = (Inl err, [])\<close> if \<open>loads content = Raised err\<close>
    using that by (rule parse_response_raised)
  show "str_find anchor content = Some i \<longleftrightarrow>
         i \<le> length content \<and> prefix anchor (drop i content) \<and>
         (\<forall>k<i. \<not> prefix anchor (drop k content))"
    by (rule str_find_Some_iff)
  show "str_rfind (py ''}'') content = Some j \<longleftrightarrow>
         j < length content \<and> content ! j = of_char CHR ''}'' \<and>
         (\<forall>k. j < k \<and> k < length content \<longrightarrow> content ! k \<noteq> of_char CHR ''}'')"
    using str_rfind_char_iff [of "of_char CHR ''}''" content j] by (simp add: py_def)
  show "clean_content raw = strip body" if "strip raw = py ''```json'' @ body @ py ''```''"
    using that by (rule clean_content_both)
  show "clean_content raw = strip body"
    if "strip raw = py ''```json'' @ body \<and> \<not> suffix (py ''```'') body"
    using that clean_content_leading by blast
  show "clean_content raw = strip body"
    if "\<not> prefix (py ''```json'') (strip raw) \<and> strip raw = body @ py ''```''"
    using that clean_content_trailing by blast
  show "clean_content raw = strip raw"
    if "\<not> prefix (py ''```json'') (strip raw) \<and> \<not> suffix (py ''```'') (strip raw)"
    using that clean_content_none by blast
  show "fst (structure_resume env resume_text github_data custom_instructions settings s) =
       fst (parse_response (json_loads env) (resume_model env) (entry_model env)
              (clean_content text))"
    if "\<not> (no_text resume_text \<and> no_data github_data) \<and>
       build_user_prompt env resume_text github_data custom_instructions settings = Inr user_prompt \<and>
       complete env (fst (load_system_prompt env s)) user_prompt = Inr (Some text)"
    using that structure_resume_parses_cleaned [of resume_text github_data env] by blast
qed

text \<open>
  The claim as the specification states it fails on a text of 100000 opening brackets, on
  which \<open>json.loads\<close> raises \<open>RecursionError\<close>: the direct parse gives no value and no anchor
  occurs in the text, so the specification's recovery ends in the terminal recovery
  error; the code tries no anchor, logs nothing, and the operation ends in the
  \<open>RecursionError\<close>.
\<close>

theorem response_recovery_other_exception_counterexample:
  \<open>spec_recover
       (\<lambda>s. if s = replicate 100000 (of_char CHR ''['') then Raised RecursionError
            else JSONDecodeError)
       [py ''{"structured_resume":'', py ''"structured_resume":'', py ''{'']
       (replicate 100000 (of_char CHR ''['')) = Inl NoValidJSON
   \<and> load_or_repair
       (\<lambda>s. if s = replicate 100000 (of_char CHR ''['') then Raised RecursionError
            else JSONDecodeError)
       (replicate 100000 (of_char CHR ''['')) = (Inl RecursionError, [])
   \<and> parse_response
       (\<lambda>s. if s = replicate 100000 (of_char CHR ''['') then Raised RecursionError
            else JSONDecodeError)
       (\<lambda>d. Some d) (\<lambda>d. Some d)
       (replicate 100000 (of_char CHR ''['')) = (Inl RecursionError, [])\<close>
proof -
  define content :: str where \<open>content = replicate 100000 (of_char CHR ''['')\<close>
  define loads where \<open>loads = (\<lambda>s. if s = content then Raised RecursionError else JSONDecodeError)\<close>
  have s: \<open>set content = {91}\<close> by (simp add: content_def)
  have l: \<open>loads content = Raised RecursionError\<close> by (simp add: loads_def)
  have f: \<open>str_find (py ''{"structured_resume":'') content = None\<close>
    \<open>str_find (py ''"structured_resume":'') content = None\<close>
    \<open>str_find (py ''{'') content = None\<close>
    by (rule str_find_absent [of 123], simp add: py_def, simp add: s,
        rule str_find_absent [of 34], simp add: py_def, simp add: s,
        rule str_find_absent [of 123], simp add: py_def, simp add: s)
  have n: \<open>List.map_filter (\<lambda>a. Option.bind (spec_candidate content a) (\<lambda>c. parsed_value (loads c)))
       [py ''{"structured_resume":'', py ''"structured_resume":'', py ''{''] = []\<close>
    by (simp add: map_filter_simps spec_candidate_def f)
  have 1: \<open>spec_recover loads
       [py ''{"structured_resume":'', py ''"structured_resume":'', py ''{''] content
     = Inl NoValidJSON\<close>
    unfolding spec_recover_def n l by (simp add: parsed_value_simps)
  have 2: \<open>load_or_repair loads content = (Inl RecursionError, [])\<close>
    by (simp add: load_or_repair_def l)
  have 3: \<open>parse_response loads (\<lambda>d. Some d) (\<lambda>d. Some d) content = (Inl RecursionError, [])\<close>
    by (simp add: parse_response_def 2)
  show ?thesis using 1 2 3 unfolding loads_def content_def by (intro conjI)
qed

theorem response_recovery_order_witness:
  \<open>fst (load_or_repair
         (\<lambda>s. if s = py ''{"structured_resume": {"contact":{}}}''
              then Loaded (JObject [(py ''structured_resume'', JObject [(py ''contact'', JObject [])])])
              else JSONDecodeError)
         (py ''Here is the result {"structured_resume": {"contact":{}}} and some trailing notes''))
     = Inr (JObject [(py ''structured_resume'', JObject [(py ''contact'', JObject [])])])
   \<and> spec_recover
         (\<lambda>s. if s = py ''{"structured_resume": {"contact":{}}}''
              then Loaded (JObject [(py ''structured_resume'', JObject [(py ''contact'', JObject [])])])
              else JSONDecodeError)
         [py ''{"structured_resume":'', py ''"structured_resume":'', py ''{'']
         (py ''Here is the result {"structured_resume": {"contact":{}}} and some trailing notes'')
     = Inr (JObject [(py ''structured_resume'', JObject [(py ''contact'', JObject [])])])
   \<and> str_find (py ''{"structured_resume":'')
         (py ''Here is the result {"structured_resume": {"contact":{}}} and some trailing notes'')
       = Some 19
   \<and> str_rfind (py ''}'')
         (py ''Here is the result {"structured_resume": {"contact":{}}} and some trailing notes'')
       = Some 55
   \<and> fst (parse_response (\<lambda>s. JSONDecodeError) (\<lambda>d. Some d) (\<lambda>d. Some d) (py ''no json here''))
       = Inl NoValidJSON
   \<and> parse_response
         (\<lambda>s. if s = replicate 5000 (of_char CHR ''1'') then Raised ValueError else JSONDecodeError)
         (\<lambda>d. Some d) (\<lambda>d. Some d) (replicate 5000 (of_char CHR ''1''))
       = (Inl ValueError, [])
   \<and> fst (parse_response
         (\<lambda>s. if s = py ''{"a":'' @ replicate 100000 (of_char CHR ''['') @ py ''}''
              then Raised RecursionError else JSONDecodeError)
         (\<lambda>d. Some d) (\<lambda>d. Some d)
         (py ''x {"a":'' @ replicate 100000 (of_char CHR ''['') @ py ''}''))
       = Inl RecursionError
   \<and> clean_content (py ''```json'' @ [LF] @ py ''{"a": 1}'' @ [LF] @ py ''```'')
       = py ''{"a": 1}''
   \<and> fst (structure_resume
          \<lparr>prompt_file = None, default_system_prompt = py ''system'',
           build_user_prompt = (\<lambda>r g c (st :: unit option). Inr (py ''user'')),
           complete = (\<lambda>sp up. Inr (Some (py ''```json'' @ [LF] @ py ''[]'' @ [LF] @ py ''```''))),
           json_loads = (\<lambda>s. if s = py ''[]'' then Loaded (JArray []) else JSONDecodeError),
           resume_model = (\<lambda>d. Some d), entry_model = (\<lambda>d. Some d)\<rparr>
          (Some (py ''cv'')) None None None
          \<lparr>system_prompt = None, llm_calls = [], log = []\<rparr>)
       = Inl (SchemaMismatch AttributeError)\<close>
proof -
  let ?env = "\<lparr>prompt_file = None, default_system_prompt = py ''system'',
           build_user_prompt = (\<lambda>r g c (st :: unit option). Inr (py ''user'')),
           complete = (\<lambda>sp up. Inr (Some (py ''```json'' @ [LF] @ py ''[]'' @ [LF] @ py ''```''))),
           json_loads = (\<lambda>s. if s = py ''[]'' then Loaded (JArray []) else JSONDecodeError),
           resume_model = (\<lambda>d. Some d), entry_model = (\<lambda>d. Some d)\<rparr>"
  have cc: "clean_content (py ''```json'' @ [LF] @ py ''[]'' @ [LF] @ py ''```'') = py ''[]''"
    by (simp add: py_def clean_content_def strip_def isspace_def Let_def suffix_to_prefix)
  have pp: "fst (parse_response (json_loads ?env) (resume_model ?env) (entry_model ?env) (py ''[]''))
     = Inl (SchemaMismatch AttributeError)"
    by (simp add: py_def parse_response_def load_or_repair_def validate_parsed_def normalize_schema_def)
  have hh: "\<not> (no_text (Some (py ''cv'')) \<and> no_data None) \<and>
       build_user_prompt ?env (Some (py ''cv'')) None None None = Inr (py ''user'') \<and>
       complete ?env (fst (load_system_prompt ?env \<lparr>system_prompt = None, llm_calls = [], log = []\<rparr>)) (py ''user'')
        = Inr (Some (py ''```json'' @ [LF] @ py ''[]'' @ [LF] @ py ''```''))"
    by (simp add: no_text_def py_def)
  have g4: "fst (structure_resume ?env (Some (py ''cv'')) None None None
          \<lparr>system_prompt = None, llm_calls = [], log = []\<rparr>)
       = Inl (SchemaMismatch AttributeError)"
    using response_recovery_order [THEN conjunct2, THEN conjunct2, THEN conjunct2, THEN conjunct2,
        THEN conjunct2, THEN conjunct2, THEN conjunct2, THEN conjunct2, THEN conjunct2,
        THEN conjunct2, rule_format, OF hh]
    unfolding cc pp .
  let ?loads = \<open>\<lambda>s. if s = py ''{"structured_resume": {"contact":{}}}''
              then Loaded (JObject [(py ''structured_resume'', JObject [(py ''contact'', JObject [])])])
              else JSONDecodeError\<close>
  let ?content = \<open>py ''Here is the result {"structured_resume": {"contact":{}}} and some trailing notes''\<close>
  let ?anchors = \<open>[py ''{"structured_resume":'', py ''"structured_resume":'', py ''{'']\<close>
  have a: \<open>spec_recover_decode_errors ?loads ?anchors ?content
      = Inr (JObject [(py ''structured_resume'', JObject [(py ''contact'', JObject [])])])\<close>
    by (simp add: py_def spec_recover_decode_errors_def spec_candidate_def map_filter_simps)
  have b: \<open>str_find (py ''{"structured_resume":'') ?content = Some 19\<close>
    by (simp add: py_def)
  have c: \<open>str_rfind (py ''}'') ?content = Some 55\<close>
    by (simp add: py_def)
  have d: \<open>spec_recover_decode_errors (\<lambda>s. JSONDecodeError) ?anchors (py ''no json here'')
      = Inl NoValidJSON\<close>
    by (simp add: py_def spec_recover_decode_errors_def spec_candidate_def map_filter_simps)
  have e: \<open>strip (py ''```json'' @ [LF] @ py ''{"a": 1}'' @ [LF] @ py ''```'')
      = py ''```json'' @ ([LF] @ py ''{"a": 1}'' @ [LF]) @ py ''```''\<close>
    by (simp add: py_def strip_def isspace_def)
  have f: \<open>strip ([LF] @ py ''{"a": 1}'' @ [LF]) = py ''{"a": 1}''\<close>
    by (simp add: py_def strip_def isspace_def)
  have g1: \<open>fst (load_or_repair ?loads ?content)
      = Inr (JObject [(py ''structured_resume'', JObject [(py ''contact'', JObject [])])])\<close>
    using response_recovery_order [of ?loads ?content, THEN conjunct1] a by (simp only:)
  have nr: \<open>\<forall>c e. ?loads c \<noteq> Raised e\<close> by simp
  have g1': \<open>spec_recover ?loads ?anchors ?content
      = Inr (JObject [(py ''structured_resume'', JObject [(py ''contact'', JObject [])])])\<close>
    using response_recovery_order [of ?loads ?content, THEN conjunct2, THEN conjunct1,
        THEN mp, OF nr] g1 by (simp only:)
  have g2: \<open>fst (parse_response (\<lambda>s. JSONDecodeError) (\<lambda>d. Some d) (\<lambda>d. Some d) (py ''no json here''))
       = Inl NoValidJSON\<close>
    by (rule response_recovery_order [THEN conjunct2, THEN conjunct2, THEN conjunct1,
          rule_format, OF d])
  let ?digits = \<open>replicate 5000 (of_char CHR ''1'' :: codepoint)\<close>
  let ?loads5 = \<open>\<lambda>s. if s = ?digits then Raised ValueError else JSONDecodeError\<close>
  have r: \<open>?loads5 ?digits = Raised ValueError\<close> by simp
  have g5: \<open>parse_response ?loads5 (\<lambda>d. Some d) (\<lambda>d. Some d) ?digits = (Inl ValueError, [])\<close>
    by (rule response_recovery_order [of ?loads5 ?digits ValueError \<open>\<lambda>d. Some d\<close> \<open>\<lambda>d. Some d\<close>,
          THEN conjunct2, THEN conjunct2, THEN conjunct2, THEN conjunct1, THEN mp, OF r])
  let ?loads6 = \<open>\<lambda>s. if s = py ''{"a":'' @ replicate 100000 (of_char CHR ''['') @ py ''}''
              then Raised RecursionError else JSONDecodeError\<close>
  let ?content6 = \<open>py ''x {"a":'' @ replicate 100000 (of_char CHR ''['') @ py ''}''\<close>
  have g6: \<open>fst (parse_response ?loads6 (\<lambda>d. Some d) (\<lambda>d. Some d) ?content6)
       = Inl RecursionError\<close>
    by (rule response_recovery_order [of ?loads6 ?content6 RecursionError
          \<open>\<lambda>d. Some d\<close> \<open>\<lambda>d. Some d\<close>,
          THEN conjunct2, THEN conjunct2, THEN conjunct1, THEN mp,
          OF recover_candidate_raises])
  have g3: \<open>clean_content (py ''```json'' @ [LF] @ py ''{"a": 1}'' @ [LF] @ py ''```'')
       = py ''{"a": 1}''\<close>
    using response_recovery_order [THEN conjunct2, THEN conjunct2, THEN conjunct2,
        THEN conjunct2, THEN conjunct2, THEN conjunct2, THEN conjunct1, rule_format, OF e] f
    by (simp only:)
  show ?thesis
    using g1 g1' b c g2 g5 g6 g3 g4 by (intro conjI)
qed

subsection \<open>Validation of the recovered response\<close>

lemma decision_entries_eq:
  "decision_entries em xs = (valid_entries em xs, map invalid_decision_entry (invalid_entries em xs))"
  by (induction xs)
    (auto simp: valid_entries_def invalid_entries_def map_filter_simps split: sum.splits)

lemma valid_entries_drop_invalid:
  "construct em bad = Inl e \<Longrightarrow> valid_entries em (xs @ bad # ys) = valid_entries em (xs @ ys)"
  by (simp add: valid_entries_def List.map_filter_def)

lemma validate_parsed_cong:
  assumes "dict_get d (py ''structured_resume'') (JObject []) = dict_get d' (py ''structured_resume'') (JObject [])"
    and "dict_get d (py ''decision_log'') (JArray []) = dict_get d' (py ''decision_log'') (JArray [])"
  shows "validate_parsed rm em (JObject d) = validate_parsed rm em (JObject d')"
proof -
  let ?R = "dict_get d' (py ''structured_resume'') (JObject [])"
  have sr: "dict_get (AList.update (py ''structured_resume'') x d0) (py ''structured_resume'') y = x"
    for x y d0
    by (simp add: dict_get_def update_conv')
  have dl: "dict_get (AList.update (py ''structured_resume'') x d0) (py ''decision_log'') y
       = dict_get d0 (py ''decision_log'') y" for x y d0
    by (simp add: dict_get_def update_conv')
  show ?thesis
  proof (cases "truthy ?R")
    case False
    then show ?thesis
      by (simp add: validate_parsed_def normalize_schema_def Let_def assms split: sum.splits)
  next
    case True
    then show ?thesis
      by (cases ?R)
        (simp_all add: validate_parsed_def normalize_schema_def Let_def assms sr dl
          split: sum.splits)
  qed
qed

lemma validate_parsed_Inr:
  assumes "normalize_schema parsed = Inr (JObject d)"
    and "construct rm (dict_get d (py ''structured_resume'') (JObject [])) = Inr resume"
    and "iterate (dict_get d (py ''decision_log'') (JArray [])) = Inr entries"
  shows "validate_parsed rm em parsed =
     (Inr (resume, valid_entries em entries), map invalid_decision_entry (invalid_entries em entries))"
  using assms by (simp add: validate_parsed_def decision_entries_eq)

lemma validate_parsed_Inl:
  assumes "normalize_schema parsed = Inr (JObject d)"
    and "construct rm (dict_get d (py ''structured_resume'') (JObject [])) = Inl e"
  shows "validate_parsed rm em parsed = (Inl e, [])"
  using assms by (simp add: validate_parsed_def)

lemma normalize_schema_dict:
  "normalize_schema (JObject d) = Inr x \<Longrightarrow> \<exists>d'. x = JObject d'"
  by (auto simp: normalize_schema_def Let_def split: if_splits json.splits)

lemma validate_parsed_decision_log:
  "fst (validate_parsed rm em (JObject (AList.update (py ''decision_log'') (JArray entries) d)))
   = (case fst (validate_parsed rm em (JObject (AList.update (py ''decision_log'') (JArray []) d))) of
        Inl e \<Rightarrow> Inl e
      | Inr (resume, _) \<Rightarrow> Inr (resume, valid_entries em entries))"
proof -
  let ?R = "dict_get d (py ''structured_resume'') (JObject [])"
  have sr: "dict_get (AList.update (py ''structured_resume'') x d0) (py ''structured_resume'') y = x"
    for x y d0
    by (simp add: dict_get_def update_conv')
  have dl: "dict_get (AList.update (py ''structured_resume'') x d0) (py ''decision_log'') y
       = dict_get d0 (py ''decision_log'') y" for x y d0
    by (simp add: dict_get_def update_conv')
  have r: "dict_get (AList.update (py ''decision_log'') x d) (py ''structured_resume'') y
       = dict_get d (py ''structured_resume'') y" for x y
    by (simp add: dict_get_def update_conv')
  have l: "dict_get (AList.update (py ''decision_log'') x d) (py ''decision_log'') y = x" for x y
    by (simp add: dict_get_def update_conv')
  show ?thesis
  proof (cases "truthy ?R")
    case False
    then show ?thesis
      by (simp add: validate_parsed_def normalize_schema_def Let_def r l iterate_def
          decision_entries_eq valid_entries_def split: sum.splits)
  next
    case True
    then show ?thesis
      by (cases ?R)
        (simp_all add: validate_parsed_def normalize_schema_def Let_def r l sr dl iterate_def
          decision_entries_eq valid_entries_def split: sum.splits)
  qed
qed

lemma validate_parsed_drops_invalid:
  assumes "construct em bad = Inl e"
  shows "fst (validate_parsed rm em (JObject (AList.update (py ''decision_log'') (JArray (xs @ bad # ys)) d)))
       = fst (validate_parsed rm em (JObject (AList.update (py ''decision_log'') (JArray (xs @ ys)) d)))"
  by (simp only: validate_parsed_decision_log [of rm em "xs @ bad # ys"]
      validate_parsed_decision_log [of rm em "xs @ ys"] valid_entries_drop_invalid [OF assms])

lemma parse_response_loaded:
  "loads content = Loaded parsed \<Longrightarrow>
     fst (parse_response loads rm em content) =
       (case fst (validate_parsed rm em parsed) of Inl e \<Rightarrow> Inl (SchemaMismatch e) | Inr r \<Rightarrow> Inr r)"
  by (cases "validate_parsed rm em parsed")
    (auto simp: parse_response_def load_or_repair_def split: sum.splits)


text \<open>
  C1. Validation is asymmetric. Once a JSON value has been recovered and reconciled:
  if constructing the resume from \<open>structured_resume\<close> raises, the operation fails with
  the schema error wrapping that exception; if it succeeds, the operation succeeds
  whatever the decision-log entries are, returning that resume with exactly the entries
  that construct, in order, and one \<open>invalid_decision_entry\<close> warning for each entry that
  does not. Hence inserting an entry that does not construct anywhere in the decision
  log of a response changes neither the outcome, nor the resume, nor the other entries.
  This holds for every resume model and entry model.
\<close>

theorem asymmetric_validation:
  "(load_or_repair loads content = (Inr parsed, events) \<and>
    normalize_schema parsed = Inr (JObject d) \<and>
    construct rm (dict_get d (py ''structured_resume'') (JObject [])) = Inl e \<longrightarrow>
      parse_response loads rm em content =
        (Inl (SchemaMismatch e), events @ [schema_validation_error]))
   \<and> (load_or_repair loads content = (Inr parsed, events) \<and>
      normalize_schema parsed = Inr (JObject d) \<and>
      construct rm (dict_get d (py ''structured_resume'') (JObject [])) = Inr resume \<and>
      iterate (dict_get d (py ''decision_log'') (JArray [])) = Inr entries \<longrightarrow>
        parse_response loads rm em content =
          (Inr (resume, valid_entries em entries),
           events @ map invalid_decision_entry (invalid_entries em entries)))
   \<and> (loads c1 = Loaded (JObject (AList.update (py ''decision_log'') (JArray (xs @ bad # ys)) d0)) \<and>
      loads c2 = Loaded (JObject (AList.update (py ''decision_log'') (JArray (xs @ ys)) d0)) \<and>
      construct em bad = Inl e' \<longrightarrow>
        fst (parse_response loads rm em c1) = fst (parse_response loads rm em c2))"
proof (intro conjI impI)
  show "parse_response loads rm em content =
        (Inl (SchemaMismatch e), events @ [schema_validation_error])"
    if "load_or_repair loads content = (Inr parsed, events) \<and>
        normalize_schema parsed = Inr (JObject d) \<and>
        construct rm (dict_get d (py ''structured_resume'') (JObject [])) = Inl e"
    using that validate_parsed_Inl [of parsed d rm e em]
    by (simp add: parse_response_def)
  show "parse_response loads rm em content =
          (Inr (resume, valid_entries em entries),
           events @ map invalid_decision_entry (invalid_entries em entries))"
    if "load_or_repair loads content = (Inr parsed, events) \<and>
      normalize_schema parsed = Inr (JObject d) \<and>
      construct rm (dict_get d (py ''structured_resume'') (JObject [])) = Inr resume \<and>
      iterate (dict_get d (py ''decision_log'') (JArray [])) = Inr entries"
    using that validate_parsed_Inr [of parsed d rm resume entries em]
    by (simp add: parse_response_def)
  show "fst (parse_response loads rm em c1) = fst (parse_response loads rm em c2)"
    if "loads c1 = Loaded (JObject (AList.update (py ''decision_log'') (JArray (xs @ bad # ys)) d0)) \<and>
      loads c2 = Loaded (JObject (AList.update (py ''decision_log'') (JArray (xs @ ys)) d0)) \<and>
      construct em bad = Inl e'"
  proof -
    from that have 1: "loads c1 = Loaded (JObject (AList.update (py ''decision_log'') (JArray (xs @ bad # ys)) d0))"
      and 2: "loads c2 = Loaded (JObject (AList.update (py ''decision_log'') (JArray (xs @ ys)) d0))"
      and 3: "construct em bad = Inl e'" by auto
    show ?thesis
      unfolding parse_response_loaded [of loads c1, OF 1] parse_response_loaded [of loads c2, OF 2]
        validate_parsed_drops_invalid [OF 3] ..
  qed
qed


theorem asymmetric_validation_witness:
  "parse_response (\<lambda>s. if s = py ''response'' then Loaded (JObject [(py ''structured_resume'', JObject [(py ''contact'', JObject [])]),
       (py ''decision_log'', JArray [JObject [(py ''section'', JString (py ''skills'')), (py ''action'', JString (py ''Included'')),
        (py ''items'', JArray [JString (py ''Python'')]), (py ''reason'', JString (py ''listed'')),
        (py ''source'', JString (py ''resume'')), (py ''confidence'', JString (py ''high''))], JObject [(py ''section'', JString (py ''skills'')), (py ''action'', JString (py ''included'')),
        (py ''items'', JArray [JString (py ''Go'')]), (py ''reason'', JString (py ''listed'')),
        (py ''source'', JString (py ''resume'')), (py ''confidence'', JString (py ''very high''))]])]) else JSONDecodeError)
     (CanonicalResume_new (map (\<lambda>c. if 65 \<le> c \<and> c \<le> 90 then c + 32 else c)) Some) (DecisionLogEntry_new (map (\<lambda>c. if 65 \<le> c \<and> c \<le> 90 then c + 32 else c))) (py ''response'')
   = (Inr (\<lparr>contact = \<lparr>full_name = None, email = None, phone = None, location = None, github = None,
            linkedin = None, website = None\<rparr>,
          summary = None,
          technical_skills = \<lparr>languages = [], frameworks_libraries = [], tools_platforms = [],
            databases = [], other = []\<rparr>,
          projects = [], education = [], experience = [], certifications = [],
          additional_info = None\<rparr>, [\<lparr>section_name = py ''skills'', action = py ''included'', items = [py ''Python''],
           reason = py ''listed'', entry_source = py ''resume'', confidence = py ''high''\<rparr>]), [invalid_decision_entry (JObject [(py ''section'', JString (py ''skills'')), (py ''action'', JString (py ''included'')),
        (py ''items'', JArray [JString (py ''Go'')]), (py ''reason'', JString (py ''listed'')),
        (py ''source'', JString (py ''resume'')), (py ''confidence'', JString (py ''very high''))])])
   \<and> parse_response (\<lambda>s. if s = py ''response'' then Loaded (JObject [(py ''structured_resume'', JObject [])]) else JSONDecodeError)
     (CanonicalResume_new (map (\<lambda>c. if 65 \<le> c \<and> c \<le> 90 then c + 32 else c)) Some) (DecisionLogEntry_new (map (\<lambda>c. if 65 \<le> c \<and> c \<le> 90 then c + 32 else c))) (py ''response'')
   = (Inl (SchemaMismatch ValidationError), [schema_validation_error])
   \<and> fst (parse_response
        (\<lambda>s. if s = py ''with''
            then Loaded (JObject (AList.update (py ''decision_log'') (JArray ([JObject [(py ''section'', JString (py ''skills'')), (py ''action'', JString (py ''Included'')),
        (py ''items'', JArray [JString (py ''Python'')]), (py ''reason'', JString (py ''listed'')),
        (py ''source'', JString (py ''resume'')), (py ''confidence'', JString (py ''high''))]] @ JObject [(py ''section'', JString (py ''skills'')), (py ''action'', JString (py ''included'')),
        (py ''items'', JArray [JString (py ''Go'')]), (py ''reason'', JString (py ''listed'')),
        (py ''source'', JString (py ''resume'')), (py ''confidence'', JString (py ''very high''))] # []))
                   [(py ''structured_resume'', JObject [(py ''contact'', JObject [])])]))
          else if s = py ''without''
            then Loaded (JObject (AList.update (py ''decision_log'') (JArray ([JObject [(py ''section'', JString (py ''skills'')), (py ''action'', JString (py ''Included'')),
        (py ''items'', JArray [JString (py ''Python'')]), (py ''reason'', JString (py ''listed'')),
        (py ''source'', JString (py ''resume'')), (py ''confidence'', JString (py ''high''))]] @ []))
                   [(py ''structured_resume'', JObject [(py ''contact'', JObject [])])]))
          else JSONDecodeError)
        (CanonicalResume_new (map (\<lambda>c. if 65 \<le> c \<and> c \<le> 90 then c + 32 else c)) Some) (DecisionLogEntry_new (map (\<lambda>c. if 65 \<le> c \<and> c \<le> 90 then c + 32 else c))) (py ''with''))
     = fst (parse_response
        (\<lambda>s. if s = py ''with''
            then Loaded (JObject (AList.update (py ''decision_log'') (JArray ([JObject [(py ''section'', JString (py ''skills'')), (py ''action'', JString (py ''Included'')),
        (py ''items'', JArray [JString (py ''Python'')]), (py ''reason'', JString (py ''listed'')),
        (py ''source'', JString (py ''resume'')), (py ''confidence'', JString (py ''high''))]] @ JObject [(py ''section'', JString (py ''skills'')), (py ''action'', JString (py ''included'')),
        (py ''items'', JArray [JString (py ''Go'')]), (py ''reason'', JString (py ''listed'')),
        (py ''source'', JString (py ''resume'')), (py ''confidence'', JString (py ''very high''))] # []))
                   [(py ''structured_resume'', JObject [(py ''contact'', JObject [])])]))
          else if s = py ''without''
            then Loaded (JObject (AList.update (py ''decision_log'') (JArray ([JObject [(py ''section'', JString (py ''skills'')), (py ''action'', JString (py ''Included'')),
        (py ''items'', JArray [JString (py ''Python'')]), (py ''reason'', JString (py ''listed'')),
        (py ''source'', JString (py ''resume'')), (py ''confidence'', JString (py ''high''))]] @ []))
                   [(py ''structured_resume'', JObject [(py ''contact'', JObject [])])]))
          else JSONDecodeError)
        (CanonicalResume_new (map (\<lambda>c. if 65 \<le> c \<and> c \<le> 90 then c + 32 else c)) Some) (DecisionLogEntry_new (map (\<lambda>c. if 65 \<le> c \<and> c \<le> 90 then c + 32 else c))) (py ''without''))"
proof -
  let ?L2 = "(\<lambda>s. if s = py ''with''
            then Loaded (JObject (AList.update (py ''decision_log'') (JArray ([JObject [(py ''section'', JString (py ''skills'')), (py ''action'', JString (py ''Included'')),
        (py ''items'', JArray [JString (py ''Python'')]), (py ''reason'', JString (py ''listed'')),
        (py ''source'', JString (py ''resume'')), (py ''confidence'', JString (py ''high''))]] @ JObject [(py ''section'', JString (py ''skills'')), (py ''action'', JString (py ''included'')),
        (py ''items'', JArray [JString (py ''Go'')]), (py ''reason'', JString (py ''listed'')),
        (py ''source'', JString (py ''resume'')), (py ''confidence'', JString (py ''very high''))] # []))
                   [(py ''structured_resume'', JObject [(py ''contact'', JObject [])])]))
          else if s = py ''without''
            then Loaded (JObject (AList.update (py ''decision_log'') (JArray ([JObject [(py ''section'', JString (py ''skills'')), (py ''action'', JString (py ''Included'')),
        (py ''items'', JArray [JString (py ''Python'')]), (py ''reason'', JString (py ''listed'')),
        (py ''source'', JString (py ''resume'')), (py ''confidence'', JString (py ''high''))]] @ []))
                   [(py ''structured_resume'', JObject [(py ''contact'', JObject [])])]))
          else JSONDecodeError)"
  let ?D = "[(py ''structured_resume'', JObject [(py ''contact'', JObject [])]),
       (py ''decision_log'', JArray [JObject [(py ''section'', JString (py ''skills'')), (py ''action'', JString (py ''Included'')),
        (py ''items'', JArray [JString (py ''Python'')]), (py ''reason'', JString (py ''listed'')),
        (py ''source'', JString (py ''resume'')), (py ''confidence'', JString (py ''high''))], JObject [(py ''section'', JString (py ''skills'')), (py ''action'', JString (py ''included'')),
        (py ''items'', JArray [JString (py ''Go'')]), (py ''reason'', JString (py ''listed'')),
        (py ''source'', JString (py ''resume'')), (py ''confidence'', JString (py ''very high''))]])]"
  let ?good = "JObject [(py ''section'', JString (py ''skills'')), (py ''action'', JString (py ''Included'')),
        (py ''items'', JArray [JString (py ''Python'')]), (py ''reason'', JString (py ''listed'')),
        (py ''source'', JString (py ''resume'')), (py ''confidence'', JString (py ''high''))]"
  let ?bad = "JObject [(py ''section'', JString (py ''skills'')), (py ''action'', JString (py ''included'')),
        (py ''items'', JArray [JString (py ''Go'')]), (py ''reason'', JString (py ''listed'')),
        (py ''source'', JString (py ''resume'')), (py ''confidence'', JString (py ''very high''))]"
  let ?resume = "\<lparr>contact = \<lparr>full_name = None, email = None, phone = None, location = None, github = None,
            linkedin = None, website = None\<rparr>,
          summary = None,
          technical_skills = \<lparr>languages = [], frameworks_libraries = [], tools_platforms = [],
            databases = [], other = []\<rparr>,
          projects = [], education = [], experience = [], certifications = [],
          additional_info = None\<rparr>"
  let ?loads = "\<lambda>s. if s = py ''response'' then Loaded (JObject ?D) else JSONDecodeError"
  let ?rm = "CanonicalResume_new (map (\<lambda>c. if 65 \<le> c \<and> c \<le> 90 then c + 32 else c)) Some"
  let ?em = "DecisionLogEntry_new (map (\<lambda>c. if 65 \<le> c \<and> c \<le> 90 then c + 32 else c))"
  have a: "load_or_repair ?loads (py ''response'') = (Inr (JObject ?D), [])"
    by (simp add: load_or_repair_def)
  have b: "normalize_schema (JObject ?D) = Inr (JObject ?D)"
    by (simp add: normalize_schema_def dict_get_def normalize_section_def)
  have c: "construct ?rm (dict_get ?D (py ''structured_resume'') (JObject [])) = Inr ?resume"
    by (simp add: construct_def dict_get_def CanonicalResume_new_def ContactInfo_new_def
        required_def optional_def defaulted_def as_model_def)
  have d: "iterate (dict_get ?D (py ''decision_log'') (JArray [])) = Inr [?good, ?bad]"
    by (simp add: iterate_def dict_get_def)
  have e: "valid_entries ?em [?good, ?bad] = [\<lparr>section_name = py ''skills'', action = py ''included'', items = [py ''Python''],
           reason = py ''listed'', entry_source = py ''resume'', confidence = py ''high''\<rparr>]"
    by (simp add: valid_entries_def map_filter_simps construct_def DecisionLogEntry_new_def
        required_def as_str_def as_str_list_def validate_action_def validate_confidence_def
        one_of_def py_def)
  have f: "invalid_entries ?em [?good, ?bad] = [?bad]"
    by (simp add: invalid_entries_def construct_def DecisionLogEntry_new_def
        required_def as_str_def as_str_list_def validate_action_def validate_confidence_def
        one_of_def py_def)
  let ?D1 = "[(py ''structured_resume'', JObject [])]"
  let ?loads1 = "\<lambda>s. if s = py ''response'' then Loaded (JObject ?D1) else JSONDecodeError"
  have a1: "load_or_repair ?loads1 (py ''response'') = (Inr (JObject ?D1), [])"
    by (simp add: load_or_repair_def)
  have b1: "normalize_schema (JObject ?D1) = Inr (JObject ?D1)"
    by (simp add: normalize_schema_def dict_get_def)
  have c1: "construct ?rm (dict_get ?D1 (py ''structured_resume'') (JObject [])) = Inl ValidationError"
    by (simp add: construct_def dict_get_def CanonicalResume_new_def required_def)
  have g1: "parse_response ?loads ?rm ?em (py ''response'')
     = (Inr (?resume, valid_entries ?em [?good, ?bad]),
        [] @ map invalid_decision_entry (invalid_entries ?em [?good, ?bad]))"
    using asymmetric_validation [THEN conjunct2, THEN conjunct1, rule_format,
        of ?loads "py ''response''" "JObject ?D" "[]" ?D ?rm ?resume "[?good, ?bad]" ?em] a b c d
    by blast
  have g2: "parse_response ?loads1 ?rm ?em (py ''response'')
     = (Inl (SchemaMismatch ValidationError), [] @ [schema_validation_error])"
    using asymmetric_validation [THEN conjunct1, rule_format,
        of ?loads1 "py ''response''" "JObject ?D1" "[]" ?D1 ?rm ValidationError ?em] a1 b1 c1
    by blast
  have bad: "construct ?em ?bad = Inl ValidationError"
    by (simp add: construct_def DecisionLogEntry_new_def
        required_def as_str_def as_str_list_def validate_action_def validate_confidence_def
        one_of_def py_def)
  have l1: "?L2 (py ''with'') = Loaded (JObject (AList.update (py ''decision_log'')
        (JArray ([?good] @ ?bad # []))
        [(py ''structured_resume'', JObject [(py ''contact'', JObject [])])]))"
    by simp
  have l2: "?L2 (py ''without'') = Loaded (JObject (AList.update (py ''decision_log'')
        (JArray ([?good] @ []))
        [(py ''structured_resume'', JObject [(py ''contact'', JObject [])])]))"
    by simp
  have g3: "fst (parse_response ?L2 ?rm ?em (py ''with''))
      = fst (parse_response ?L2 ?rm ?em (py ''without''))"
    using asymmetric_validation [THEN conjunct2, THEN conjunct2, rule_format,
        of ?L2 "py ''with''" "[?good]" ?bad "[]"
          "[(py ''structured_resume'', JObject [(py ''contact'', JObject [])])]" "py ''without''"
          ?em ValidationError ?rm] l1 l2 bad
    by blast
  have g12: "parse_response ?loads ?rm ?em (py ''response'')
       = (Inr (?resume, [\<lparr>section_name = py ''skills'', action = py ''included'', items = [py ''Python''],
           reason = py ''listed'', entry_source = py ''resume'', confidence = py ''high''\<rparr>]), [invalid_decision_entry ?bad])
     \<and> parse_response ?loads1 ?rm ?em (py ''response'')
       = (Inl (SchemaMismatch ValidationError), [schema_validation_error])"
    using g1 g2 unfolding e f by simp
  show ?thesis
    using g12 g3 by (intro conjI) blast+
qed

subsection \<open>Format parsers\<close>

lemma decode_loop_first:
  "decode_loop cs encs content =
     (case List.map_filter (\<lambda>e. decode cs e content) encs of
        t # _ \<Rightarrow> Inr t
      | [] \<Rightarrow> utf_8_ignore cs content)"
  by (induction encs) (auto simp: map_filter_simps split: option.splits)

lemma decode_content_eq:
  "decode_content cs content =
     Inr (case utf_8 cs content of
            Some t \<Rightarrow> t
          | None \<Rightarrow> (case utf_8_sig cs content of Some t \<Rightarrow> t | None \<Rightarrow> map unat content))"
  by (simp add: decode_content_def decode_def split: option.splits)

text \<open>
  C8. \<open>_decode_content\<close> tries UTF-8, UTF-8 with BOM, Latin-1 and CP1252 in this order,
  returns the first decoding that succeeds, and has the lossy UTF-8 decoding as last
  resort. Latin-1 decodes every byte sequence, so for every byte sequence and whatever
  the other codecs do, decoding returns text: the UTF-8 decoding, else the
  UTF-8-with-BOM decoding, else the Latin-1 decoding. Hence the Markdown and LaTeX
  \<open>parse\<close> always return a result, and \<open>validate_file\<close> never answers "Failed to read
  file".
\<close>

theorem decoding_never_fails:
  "decode_content cs content = decode_loop cs [UTF_8, UTF_8_SIG, LATIN_1, CP1252] content
   \<and> decode_loop cs encs content =
       (case List.map_filter (\<lambda>e. decode cs e content) encs of
          t # _ \<Rightarrow> Inr t
        | [] \<Rightarrow> utf_8_ignore cs content)
   \<and> decode cs LATIN_1 content = Some (map unat content)
   \<and> decode_content cs content =
       Inr (case utf_8 cs content of
              Some t \<Rightarrow> t
            | None \<Rightarrow> (case utf_8_sig cs content of Some t \<Rightarrow> t | None \<Rightarrow> map unat content))
   \<and> (\<exists>r. markdown_parse cs content filename = Inr r)
   \<and> (\<exists>r. latex_parse extract_text cs content filename = Inr r)
   \<and> snd (fst (markdown_validate_file get_extension cs content filename)) \<noteq> Some FailedToRead
   \<and> snd (fst (latex_validate_file get_extension cs content filename)) \<noteq> Some FailedToRead"
proof (intro conjI)
  show "decode_content cs content = decode_loop cs [UTF_8, UTF_8_SIG, LATIN_1, CP1252] content"
    by (simp add: decode_content_def)
  show "decode_loop cs encs content =
       (case List.map_filter (\<lambda>e. decode cs e content) encs of
          t # _ \<Rightarrow> Inr t
        | [] \<Rightarrow> utf_8_ignore cs content)"
    by (rule decode_loop_first)
  show "decode cs LATIN_1 content = Some (map unat content)"
    by (simp add: decode_def)
  show "decode_content cs content =
       Inr (case utf_8 cs content of
              Some t \<Rightarrow> t
            | None \<Rightarrow> (case utf_8_sig cs content of Some t \<Rightarrow> t | None \<Rightarrow> map unat content))"
    by (rule decode_content_eq)
  show "\<exists>r. markdown_parse cs content filename = Inr r"
    by (simp add: markdown_parse_def decode_content_eq Let_def)
  show "\<exists>r. latex_parse extract_text cs content filename = Inr r"
    by (simp add: latex_parse_def decode_content_eq Let_def)
  show "snd (fst (markdown_validate_file get_extension cs content filename)) \<noteq> Some FailedToRead"
    by (simp add: markdown_validate_file_def decode_content_eq)
  show "snd (fst (latex_validate_file get_extension cs content filename)) \<noteq> Some FailedToRead"
    by (simp add: latex_validate_file_def decode_content_eq)
qed

text \<open>
  C7 (amended). The Markdown and the LaTeX parser check the byte length against
  \<open>MAX_FILE_SIZE\<close> (1 MiB) before decoding: content longer than that is rejected by
  \<open>validate_file\<close> and \<open>_decode_content\<close> is not called. The PDF parser has no size check
  and no maximum: its verdict is the same for any two contents that start with the magic
  bytes and on which \<open>PdfReader\<close> reports the same, and on content of any length that
  starts with the magic bytes, under a name it handles, \<open>validate_file\<close> opens \<open>PdfReader\<close>.
\<close>

theorem size_validation_before_decoding:
  "(length content > MAX_FILE_SIZE \<longrightarrow>
      fst (fst (markdown_validate_file get_extension cs content filename)) = False \<and>
      snd (markdown_validate_file get_extension cs content filename) = [])
   \<and> (length content > MAX_FILE_SIZE \<longrightarrow>
      fst (fst (latex_validate_file get_extension cs content filename)) = False \<and>
      snd (latex_validate_file get_extension cs content filename) = [])
   \<and> (prefix pdf_magic content \<and> prefix pdf_magic content' \<and> pdf_reader content = pdf_reader content' \<longrightarrow>
      pdf_validate_file get_extension pdf_reader content filename =
      pdf_validate_file get_extension pdf_reader content' filename)
   \<and> (can_handle get_extension pdf_extensions filename \<and> prefix pdf_magic content \<longrightarrow>
      snd (pdf_validate_file get_extension pdf_reader content filename) = [OpenPdfReader])"
proof (intro conjI impI)
  show "fst (fst (markdown_validate_file get_extension cs content filename)) = False"
    "snd (markdown_validate_file get_extension cs content filename) = []"
    if "length content > MAX_FILE_SIZE"
    using that by (simp_all add: markdown_validate_file_def)
  show "fst (fst (latex_validate_file get_extension cs content filename)) = False"
    "snd (latex_validate_file get_extension cs content filename) = []"
    if "length content > MAX_FILE_SIZE"
    using that by (simp_all add: latex_validate_file_def)
  show "pdf_validate_file get_extension pdf_reader content filename =
      pdf_validate_file get_extension pdf_reader content' filename"
    if "prefix pdf_magic content \<and> prefix pdf_magic content' \<and> pdf_reader content = pdf_reader content'"
    using that by (auto simp: pdf_validate_file_def pdf_magic_def)
  show "snd (pdf_validate_file get_extension pdf_reader content filename) = [OpenPdfReader]"
    if "can_handle get_extension pdf_extensions filename \<and> prefix pdf_magic content"
    using that
    by (auto simp: pdf_validate_file_def pdf_magic_def split: pdf_reader_result.splits option.splits)
qed

text \<open>
  C7 as stated fails for the PDF parser, which has no maximum byte length. Whatever
  \<open>PdfReader\<close> does and whatever maximum is proposed, there is longer content on which
  \<open>validate_file\<close> opens the reader. An instance within the 10 MB that the upload route
  lets through: \<open>%PDF\<close> followed by 2 MiB of zero bytes, on which \<open>PdfReader\<close> raises, is
  rejected as "PDF validation failed", that is after the attempt to parse it, not for its
  size.
\<close>

theorem pdf_validate_file_no_size_check_counterexample:
  "\<not> (\<exists>pdf_reader maximum. \<forall>content. maximum < length content \<longrightarrow>
         snd (pdf_validate_file (\<lambda>name. py ''.pdf'') pdf_reader content (py ''resume.pdf'')) = [])
   \<and> length (pdf_magic @ replicate (2 * 1024 * 1024) 0) = 2 * 1024 * 1024 + 4
   \<and> pdf_validate_file (\<lambda>name. py ''.pdf'') (\<lambda>content. Raises)
        (pdf_magic @ replicate (2 * 1024 * 1024) 0) (py ''resume.pdf'')
      = ((False, Some PdfValidationFailed), [OpenPdfReader])"
proof (intro conjI notI)
  assume "\<exists>pdf_reader maximum. \<forall>content. maximum < length content \<longrightarrow>
         snd (pdf_validate_file (\<lambda>name. py ''.pdf'') pdf_reader content (py ''resume.pdf'')) = []"
  then obtain pdf_reader maximum where
    h: "\<And>content. maximum < length content \<Longrightarrow>
         snd (pdf_validate_file (\<lambda>name. py ''.pdf'') pdf_reader content (py ''resume.pdf'')) = []"
    by blast
  have "snd (pdf_validate_file (\<lambda>name. py ''.pdf'') pdf_reader
          (pdf_magic @ replicate maximum 0) (py ''resume.pdf'')) = [OpenPdfReader]"
    by (simp add: pdf_validate_file_def can_handle_def pdf_extensions_def pdf_magic_def
        split: pdf_reader_result.splits option.splits)
  moreover have "maximum < length (pdf_magic @ replicate maximum 0)"
    by (simp add: pdf_magic_def)
  ultimately show False using h by fastforce
next
  show "length (pdf_magic @ replicate (2 * 1024 * 1024) 0) = 2 * 1024 * 1024 + 4"
    by (simp add: pdf_magic_def)
  show "pdf_validate_file (\<lambda>name. py ''.pdf'') (\<lambda>content. Raises)
        (pdf_magic @ replicate (2 * 1024 * 1024) 0) (py ''resume.pdf'')
      = ((False, Some PdfValidationFailed), [OpenPdfReader])"
    by (simp add: pdf_validate_file_def can_handle_def pdf_extensions_def pdf_magic_def)
qed

theorem size_validation_before_decoding_witness:
  "length (replicate (1024 * 1024 + 1) (0 :: byte)) > MAX_FILE_SIZE
   \<and> fst (fst (markdown_validate_file (\<lambda>name. py ''.md'')
         \<lparr>utf_8 = (\<lambda>b. None), utf_8_sig = (\<lambda>b. None), cp1252 = (\<lambda>b. None),
          utf_8_ignore = (\<lambda>b. Inr [])\<rparr> (replicate (1024 * 1024 + 1) 0) (py ''cv.md''))) = False
   \<and> snd (markdown_validate_file (\<lambda>name. py ''.md'')
         \<lparr>utf_8 = (\<lambda>b. None), utf_8_sig = (\<lambda>b. None), cp1252 = (\<lambda>b. None),
          utf_8_ignore = (\<lambda>b. Inr [])\<rparr> (replicate (1024 * 1024 + 1) 0) (py ''cv.md'')) = []
   \<and> fst (fst (latex_validate_file (\<lambda>name. py ''.tex'')
         \<lparr>utf_8 = (\<lambda>b. None), utf_8_sig = (\<lambda>b. None), cp1252 = (\<lambda>b. None),
          utf_8_ignore = (\<lambda>b. Inr [])\<rparr> (replicate (1024 * 1024 + 1) 0) (py ''cv.tex''))) = False
   \<and> snd (latex_validate_file (\<lambda>name. py ''.tex'')
         \<lparr>utf_8 = (\<lambda>b. None), utf_8_sig = (\<lambda>b. None), cp1252 = (\<lambda>b. None),
          utf_8_ignore = (\<lambda>b. Inr [])\<rparr> (replicate (1024 * 1024 + 1) 0) (py ''cv.tex'')) = []
   \<and> markdown_validate_file (\<lambda>name. py ''.md'')
         \<lparr>utf_8 = (\<lambda>b. None), utf_8_sig = (\<lambda>b. None), cp1252 = (\<lambda>b. None),
          utf_8_ignore = (\<lambda>b. Inr [])\<rparr> [0x23, 0x20, 0x41] (py ''cv.md'')
       = ((True, None), [DecodeContent])
   \<and> prefix pdf_magic (pdf_magic @ [0x0A]) \<and> prefix pdf_magic (pdf_magic @ [0x0A, 0x0A])
   \<and> pdf_validate_file (\<lambda>name. py ''.pdf'') (\<lambda>content. Raises) (pdf_magic @ [0x0A]) (py ''cv.pdf'')
       = pdf_validate_file (\<lambda>name. py ''.pdf'') (\<lambda>content. Raises) (pdf_magic @ [0x0A, 0x0A]) (py ''cv.pdf'')
   \<and> can_handle (\<lambda>name. py ''.pdf'') pdf_extensions (py ''cv.pdf'')
   \<and> snd (pdf_validate_file (\<lambda>name. py ''.pdf'') (\<lambda>content. Raises) (pdf_magic @ [0x0A]) (py ''cv.pdf''))
       = [OpenPdfReader]"
proof -
  let ?cs = "\<lparr>utf_8 = (\<lambda>b. None), utf_8_sig = (\<lambda>b. None), cp1252 = (\<lambda>b. None),
          utf_8_ignore = (\<lambda>b. Inr [])\<rparr>"
  have big: "length (replicate (1024 * 1024 + 1) (0 :: byte)) > MAX_FILE_SIZE"
    by (simp add: MAX_FILE_SIZE_def)
  have small: "markdown_validate_file (\<lambda>name. py ''.md'') ?cs [0x23, 0x20, 0x41] (py ''cv.md'')
       = ((True, None), [DecodeContent])"
    by (simp add: markdown_validate_file_def can_handle_def markdown_extensions_def
        MAX_FILE_SIZE_def decode_content_def decode_def strip_def isspace_def)
  have p: "prefix pdf_magic (pdf_magic @ [0x0A]) \<and> prefix pdf_magic (pdf_magic @ [0x0A, 0x0A]) \<and>
      (\<lambda>content. Raises) (pdf_magic @ [0x0A]) = (\<lambda>content. Raises) (pdf_magic @ [0x0A, 0x0A])"
    by simp
  have q: "can_handle (\<lambda>name. py ''.pdf'') pdf_extensions (py ''cv.pdf'') \<and>
      prefix pdf_magic (pdf_magic @ [0x0A])"
    by (simp add: can_handle_def pdf_extensions_def)
  have g4: "snd (pdf_validate_file (\<lambda>name. py ''.pdf'') (\<lambda>content. Raises) (pdf_magic @ [0x0A])
        (py ''cv.pdf'')) = [OpenPdfReader]"
    by (rule size_validation_before_decoding [of "pdf_magic @ [0x0A]" "\<lambda>name. py ''.pdf''" ?cs
          "py ''cv.pdf''" "pdf_magic @ [0x0A, 0x0A]" "\<lambda>content. Raises",
          THEN conjunct2, THEN conjunct2, THEN conjunct2, THEN mp, OF q])
  show ?thesis
    using big small p q g4
      size_validation_before_decoding [of "replicate (1024 * 1024 + 1) 0" "\<lambda>name. py ''.md''" ?cs
        "py ''cv.md''", THEN conjunct1]
      size_validation_before_decoding [of "replicate (1024 * 1024 + 1) 0" "\<lambda>name. py ''.tex''" ?cs
        "py ''cv.tex''", THEN conjunct2, THEN conjunct1]
      size_validation_before_decoding [THEN conjunct2, THEN conjunct2, THEN conjunct1,
        rule_format, OF p]
    by blast
qed

subsection \<open>Markdown clean-up\<close>

lemma unruns_runs: "unruns (runs xs) = xs"
  by (induction xs) (auto simp: unruns_def split: list.splits)

lemma runs_maximal: "distinct_adj (map fst (runs xs))"
proof (induction xs)
  case Nil
  show ?case by simp
next
  case (Cons x xs)
  then show ?case by (cases "runs xs") (auto split: if_splits)
qed


lemma str_replace_single:
  "str_replace [x] [y] t = map (\<lambda>c. if c = x then y else c) t"
proof (induction t)
  case Nil
  show ?case by (simp add: str_replace.simps)
next
  case (Cons c cs)
  then show ?case by (subst str_replace.simps) auto
qed

lemma str_replace_crlf_Nil: "str_replace [CR, LF] [LF] [] = []"
  by (simp add: str_replace.simps)

lemma str_replace_crlf_hit:
  "str_replace [CR, LF] [LF] (CR # LF # r) = LF # str_replace [CR, LF] [LF] r"
  by (subst str_replace.simps) simp

lemma str_replace_crlf_miss:
  "\<not> prefix [CR, LF] (c # r) \<Longrightarrow>
     str_replace [CR, LF] [LF] (c # r) = c # str_replace [CR, LF] [LF] r"
  by (subst str_replace.simps) simp

lemma line_endings_spec:
  "str_replace [CR] [LF] (str_replace [CR, LF] [LF] t) = spec_line_endings t"
proof (induction t rule: spec_line_endings.induct)
  case 1
  show ?case by (simp add: str_replace_crlf_Nil str_replace_single)
next
  case (2 c)
  show ?case by (simp add: str_replace_crlf_miss str_replace_crlf_Nil str_replace_single)
next
  case (3 c d r)
  show ?case
  proof (cases "c = CR \<and> d = LF")
    case True
    then show ?thesis using 3 by (simp add: str_replace_crlf_hit str_replace_single)
  next
    case False
    then have "\<not> prefix [CR, LF] (c # d # r)" by auto
    then have "str_replace [CR, LF] [LF] (c # d # r) = c # str_replace [CR, LF] [LF] (d # r)"
      by (rule str_replace_crlf_miss)
    then show ?thesis using 3 False by (auto simp: str_replace_single)
  qed
qed

lemma spec_line_endings_no_CR: "CR \<notin> set (spec_line_endings t)"
  by (induction t rule: spec_line_endings.induct) auto


lemma spec_collapse_cap: "spec_collapse t = unruns (map cap (runs t))"
  by (simp add: spec_collapse_def)

lemma runs_Cons_cong:
  assumes "map cap (runs X) = map cap (runs Y)"
  shows "map cap (runs (x # X)) = map cap (runs (x # Y))"
proof (cases "runs X")
  case Nil
  then have "runs Y = []" using assms by simp
  then show ?thesis using Nil by simp
next
  case (Cons a rs)
  then obtain b rs' where Y: "runs Y = b # rs'" using assms by (cases "runs Y") auto
  obtain y n where a: "a = (y, n)" by (cases a)
  obtain y' n' where b: "b = (y', n')" by (cases b)
  have h: "cap (y, n) = cap (y', n')" and t: "map cap rs = map cap rs'"
    using assms Cons Y a b by auto
  then have yy: "y' = y" by (auto simp: cap_def)
  have s: "cap (y, Suc n) = cap (y, Suc n')"
    using h yy by (auto simp: cap_def split: if_splits)
  have X: "runs (x # X) = (if x = y then (y, Suc n) # rs else (x, 1) # (y, n) # rs)"
    using Cons a by simp
  have Y': "runs (x # Y) = (if x = y then (y, Suc n') # rs' else (x, 1) # (y, n') # rs')"
    using Y b yy by simp
  show ?thesis
    unfolding X Y' using h s t yy by simp
qed


lemma runs_append_cong:
  "map cap (runs X) = map cap (runs Y) \<Longrightarrow> map cap (runs (p @ X)) = map cap (runs (p @ Y))"
proof (induction p)
  case Nil
  then show ?case by simp
next
  case (Cons x p)
  have "map cap (runs (x # (p @ X))) = map cap (runs (x # (p @ Y)))"
    by (rule runs_Cons_cong) (rule Cons.IH [OF Cons.prems])
  then show ?case by (simp only: append_Cons)
qed

lemma runs_head: "runs (x # xs) \<noteq> [] \<and> fst (hd (runs (x # xs))) = x \<and> 1 \<le> snd (hd (runs (x # xs)))"
  by (cases "runs xs") (auto split: if_splits)

lemma runs_three_two:
  "map cap (runs (LF # LF # LF # r)) = map cap (runs (LF # LF # r))"
proof -
  obtain n rs where 1: "runs (LF # r) = (LF, n) # rs" and n: "1 \<le> n"
    using runs_head [of LF r] by (cases "runs (LF # r)") auto
  have 2: "runs (LF # LF # r) = (LF, Suc n) # rs"
    using 1 by (simp del: runs.simps add: runs.simps(2) [of LF "LF # r"])
  have 3: "runs (LF # LF # LF # r) = (LF, Suc (Suc n)) # rs"
    using 2 by (simp del: runs.simps add: runs.simps(2) [of LF "LF # LF # r"])
  show ?thesis unfolding 2 3 using n by (simp add: cap_def)
qed

lemma spec_collapse_drop_one:
  "spec_collapse (p @ LF # LF # LF # r) = spec_collapse (p @ LF # LF # r)"
proof -
  have "map cap (runs (p @ LF # LF # LF # r)) = map cap (runs (p @ LF # LF # r))"
    by (rule runs_append_cong) (rule runs_three_two)
  then show ?thesis unfolding spec_collapse_cap by (rule arg_cong)
qed

lemma spec_collapse_replace:
  "spec_collapse (p @ str_replace [LF, LF, LF] [LF, LF] r) = spec_collapse (p @ r)"
proof (induction r arbitrary: p rule: length_induct)
  case (1 r)
  show ?case
  proof (cases "prefix [LF, LF, LF] r")
    case True
    then obtain r' where r: "r = LF # LF # LF # r'" by (auto simp: prefix_def)
    have "str_replace [LF, LF, LF] [LF, LF] r = LF # LF # str_replace [LF, LF, LF] [LF, LF] r'"
      using r by (subst str_replace.simps) simp
    then have "spec_collapse (p @ str_replace [LF, LF, LF] [LF, LF] r)
        = spec_collapse ((p @ [LF, LF]) @ str_replace [LF, LF, LF] [LF, LF] r')"
      by (simp only: append_assoc append_Cons append_Nil)
    also have "\<dots> = spec_collapse ((p @ [LF, LF]) @ r')"
    proof -
      have "length r' < length r" using r by simp
      then show ?thesis using 1 by blast
    qed
    also have "\<dots> = spec_collapse (p @ LF # LF # r')"
      by (simp only: append_assoc append_Cons append_Nil)
    also have "\<dots> = spec_collapse (p @ r)"
      unfolding r by (rule spec_collapse_drop_one [symmetric])
    finally show ?thesis .
  next
    case False
    show ?thesis
    proof (cases r)
      case Nil
      then show ?thesis by (simp add: str_replace.simps)
    next
      case (Cons x xs)
      have "str_replace [LF, LF, LF] [LF, LF] r = x # str_replace [LF, LF, LF] [LF, LF] xs"
        using False Cons by (subst str_replace.simps) auto
      then have "spec_collapse (p @ str_replace [LF, LF, LF] [LF, LF] r)
          = spec_collapse ((p @ [x]) @ str_replace [LF, LF, LF] [LF, LF] xs)"
        by (simp only: append_assoc append_Cons append_Nil)
      also have "\<dots> = spec_collapse ((p @ [x]) @ xs)"
      proof -
        have "length xs < length r" using Cons by simp
        then show ?thesis using 1 by blast
      qed
      also have "\<dots> = spec_collapse (p @ r)"
        unfolding Cons by (simp only: append_assoc append_Cons append_Nil)
      finally show ?thesis .
    qed
  qed
qed


lemma unruns_Cons: "unruns ((c, n) # rs) = replicate n c @ unruns rs"
  by (simp add: unruns_def)

lemma runs_long_newlines:
  "(LF, n) \<in> set (runs t) \<Longrightarrow> 3 \<le> n \<Longrightarrow> str_find [LF, LF, LF] t \<noteq> None"
proof (induction t arbitrary: n)
  case Nil
  then show ?case by simp
next
  case (Cons x xs)
  show ?case
  proof (cases "prefix [LF, LF, LF] (x # xs)")
    case True
    then show ?thesis by simp
  next
    case False
    have "\<exists>m. (LF, m) \<in> set (runs xs) \<and> 3 \<le> m"
    proof (cases "runs xs")
      case Nil
      then show ?thesis using Cons.prems by auto
    next
      case (Cons a rs)
      obtain y k where a: "a = (y, k)" by (cases a)
      have xs: "xs = replicate k y @ unruns rs"
        using unruns_runs [of xs] Cons a by (simp add: unruns_Cons)
      show ?thesis
      proof (cases "x = y")
        case True
        then have r: "runs (x # xs) = (y, Suc k) # rs" using Cons a by simp
        show ?thesis
        proof (cases "(LF, n) = (y, Suc k)")
          case True
          then have "y = LF" "2 \<le> k" using \<open>3 \<le> n\<close> by auto
          then obtain k' where "k = Suc (Suc k')" by (metis Suc_le_D numeral_2_eq_2 Suc_le_mono)
          then have "prefix [LF, LF, LF] (x # xs)"
            using xs \<open>x = y\<close> \<open>y = LF\<close> by simp
          then show ?thesis using False by simp
        next
          case False
          then have "(LF, n) \<in> set rs" using Cons.prems(1) r by auto
          then show ?thesis using Cons \<open>3 \<le> n\<close> by auto
        qed
      next
        case False
        then have "runs (x # xs) = (x, 1) # runs xs" using Cons a by simp
        then show ?thesis using Cons.prems by auto
      qed
    qed
    then obtain m where "(LF, m) \<in> set (runs xs)" "3 \<le> m" by blast
    then have "str_find [LF, LF, LF] xs \<noteq> None" by (rule Cons.IH)
    then show ?thesis using False by auto
  qed
qed

lemma spec_collapse_fixed:
  assumes "\<not> str_contains [LF, LF, LF] t"
  shows "spec_collapse t = t"
proof -
  have "cap r = r" if "r \<in> set (runs t)" for r
  proof -
    obtain c n where r: "r = (c, n)" by (cases r)
    have "\<not> (c = LF \<and> 3 \<le> n)"
      using runs_long_newlines [of n t] that r assms by (auto simp: str_contains_def)
    then show ?thesis by (auto simp: cap_def r)
  qed
  then have "map cap (runs t) = runs t" by (simp add: map_idI)
  then show ?thesis by (simp add: spec_collapse_cap unruns_runs)
qed

lemma collapse_blank_lines_spec: "collapse_blank_lines t = spec_collapse t"
proof (induction t rule: collapse_blank_lines.induct)
  case (1 t)
  show ?case
  proof (cases "str_contains [LF, LF, LF] t")
    case True
    then have "collapse_blank_lines t = collapse_blank_lines (str_replace [LF, LF, LF] [LF, LF] t)"
      by (subst collapse_blank_lines.simps) simp
    also have "\<dots> = spec_collapse (str_replace [LF, LF, LF] [LF, LF] t)"
      using 1 True by simp
    also have "\<dots> = spec_collapse t"
      using spec_collapse_replace [of "[]" t] by simp
    finally show ?thesis .
  next
    case False
    then have "collapse_blank_lines t = t"
      by (subst collapse_blank_lines.simps) simp
    then show ?thesis using False by (simp add: spec_collapse_fixed)
  qed
qed

lemma collapse_blank_lines_done: "\<not> str_contains [LF, LF, LF] (collapse_blank_lines t)"
proof (induction t rule: collapse_blank_lines.induct)
  case (1 t)
  show ?case
  proof (cases "str_contains [LF, LF, LF] t")
    case True
    then show ?thesis using 1 by (subst collapse_blank_lines.simps) simp
  next
    case False
    then show ?thesis by (subst collapse_blank_lines.simps) simp
  qed
qed

lemma clean_text_spec: "clean_text t = strip (spec_collapse (spec_line_endings t))"
  by (simp add: clean_text_def Let_def line_endings_spec collapse_blank_lines_spec)


lemma set_strip: "set (strip s) \<subseteq> set s"
proof -
  have "set (strip s) \<subseteq> set (rev (dropWhile isspace s))"
    unfolding strip_def set_rev by (auto dest: set_dropWhileD)
  also have "\<dots> \<subseteq> set s" by (auto dest: set_dropWhileD)
  finally show ?thesis .
qed

lemma strip_inside: "\<exists>a b. s = a @ strip s @ b"
proof -
  define t where "t = dropWhile isspace s"
  have 1: "s = takeWhile isspace s @ t" by (simp add: t_def)
  have "rev (takeWhile isspace (rev t) @ dropWhile isspace (rev t)) = rev (rev t)"
    by (simp only: takeWhile_dropWhile_id)
  then have "rev (dropWhile isspace (rev t)) @ rev (takeWhile isspace (rev t)) = t"
    by (simp only: rev_append rev_rev_ident)
  then have 2: "t = strip s @ rev (takeWhile isspace (rev t))"
    unfolding strip_def t_def by (rule sym)
  show ?thesis using 1 2 by metis
qed

lemma str_find_inside:
  assumes "str_find sub m \<noteq> None"
  shows "str_find sub (a @ m @ b) \<noteq> None"
proof -
  obtain k where k: "k < Suc (length m)" "prefix sub (drop k m)"
    using assms unfolding str_find_None_iff by blast
  have "prefix sub (drop k m @ b)" using k(2) by (rule prefix_prefix)
  then have "prefix sub (drop (length a + k) (a @ m @ b))" using k(1) by simp
  moreover have "length a + k < Suc (length (a @ m @ b))" using k(1) by simp
  ultimately show ?thesis unfolding str_find_None_iff by blast
qed

lemma runs_pos: "(c, m) \<in> set (runs t) \<Longrightarrow> 0 < m"
proof (induction t arbitrary: c m)
  case Nil
  then show ?case by simp
next
  case (Cons x xs)
  then show ?case by (cases "runs xs") (auto split: if_splits)
qed

lemma set_spec_collapse: "set (spec_collapse t) \<subseteq> set t"
proof
  fix c assume "c \<in> set (spec_collapse t)"
  then obtain n where "(c, n) \<in> set (map cap (runs t))"
    by (auto simp: spec_collapse_cap unruns_def)
  then obtain m where m: "(c, m) \<in> set (runs t)" by (auto simp: cap_def)
  then have "0 < m" by (rule runs_pos)
  then have "c \<in> set (unruns (runs t))" using m by (force simp: unruns_def)
  then show "c \<in> set t" by (simp add: unruns_runs)
qed

text \<open>
  C9 (amended). \<open>_clean_text\<close> replaces every \<open>\r\n\<close> and every remaining \<open>\r\<close> by \<open>\n\<close>,
  shortens every maximal run of three or more newline characters (two or more
  consecutive empty lines) to exactly two newlines (one empty line), leaves runs of one
  or two newlines unchanged, and strips leading and trailing whitespace. The result
  contains no \<open>\r\<close> and no three consecutive newlines.
\<close>

theorem clean_text_collapses_newline_runs:
  "clean_text t = strip (spec_collapse (spec_line_endings t))
   \<and> CR \<notin> set (clean_text t)
   \<and> \<not> str_contains [LF, LF, LF] (clean_text t)"
proof (intro conjI)
  show "clean_text t = strip (spec_collapse (spec_line_endings t))"
    by (rule clean_text_spec)
  show "CR \<notin> set (clean_text t)"
    using set_strip [of "spec_collapse (spec_line_endings t)"]
      set_spec_collapse [of "spec_line_endings t"] spec_line_endings_no_CR [of t]
    unfolding clean_text_spec by blast
  show "\<not> str_contains [LF, LF, LF] (clean_text t)"
  proof
    let ?u = "collapse_blank_lines (str_replace [CR] [LF] (str_replace [CR, LF] [LF] t))"
    assume "str_contains [LF, LF, LF] (clean_text t)"
    then have f: "str_find [LF, LF, LF] (strip ?u) \<noteq> None"
      by (simp add: str_contains_def clean_text_def Let_def)
    obtain a b where "?u = a @ strip ?u @ b" using strip_inside by blast
    then have "str_find [LF, LF, LF] ?u \<noteq> None"
      using str_find_inside [OF f, of a b] by simp
    then show False
      using collapse_blank_lines_done [of "str_replace [CR] [LF] (str_replace [CR, LF] [LF] t)"]
      by (simp add: str_contains_def)
  qed
qed

lemma clean_text_example:
  "clean_text ([LF] @ py ''a'' @ [CR, LF, CR, CR] @ py ''b'' @ [LF, LF] @ py ''c '' @ [CR, LF])
     = py ''a'' @ [LF, LF] @ py ''b'' @ [LF, LF] @ py ''c''"
  by (simp add: clean_text_def py_def collapse_blank_lines.simps str_replace.simps
      str_contains_def strip_def isspace_def)

text \<open>
  C9 as stated fails: two consecutive blank lines between two paragraphs (three newline
  characters) are fewer than three blank lines, yet they are collapsed to one.
\<close>

theorem clean_text_two_blank_lines_counterexample:
  "clean_text (py ''intro'' @ [LF, LF, LF] @ py ''body'') = py ''intro'' @ [LF, LF] @ py ''body''
   \<and> clean_text (py ''intro'' @ [LF, LF, LF] @ py ''body'') \<noteq> py ''intro'' @ [LF, LF, LF] @ py ''body''"
  by (simp add: clean_text_def py_def collapse_blank_lines.simps str_replace.simps
      str_contains_def strip_def isspace_def)

subsection \<open>Repository ranking\<close>

lemma scored_repos_fst: "map fst (scored_repos clock repos) = filter should_include_repo repos"
  by (simp add: scored_repos_def Let_def map_idI split_beta o_def)

lemma scored_repos_member:
  assumes "(r, s) \<in> set (scored_repos clock repos)"
  shows "r \<in> set repos \<and> should_include_repo r \<and> (\<exists>i. s = calculate_repo_score (clock i) r)"
proof -
  have "r \<in> set (map fst (scored_repos clock repos))" using assms by force
  then have 1: "r \<in> set repos \<and> should_include_repo r" by (simp add: scored_repos_fst)
  have "\<exists>i. s = calculate_repo_score (clock i) r"
    using assms by (auto simp: scored_repos_def Let_def)
  then show ?thesis using 1 by simp
qed

lemma top_repos_subset: "set (top_repos clock repos) \<subseteq> set (scored_repos clock repos)"
  unfolding top_repos_def using set_take_subset [of MAX_REPOS "sort_key (\<lambda>x. - snd x) (scored_repos clock repos)"]
  by simp

lemma sorted_desc:
  "sorted_wrt (\<lambda>a b. snd b \<le> snd a) (sort_key (\<lambda>x. - snd x) (xs :: ('a \<times> int) list))"
proof -
  have "sorted (map (\<lambda>x. - snd x) (sort_key (\<lambda>x. - snd x) xs))" by (rule sorted_sort_key)
  then show ?thesis by (simp add: sorted_map)
qed

lemma calculate_repo_score_eq:
  "calculate_repo_score now r =
     (case pushed_at r of
        None \<Rightarrow> 0
      | Some pushed \<Rightarrow>
          if (now - pushed) div DAY < 30 then 50
          else if (now - pushed) div DAY < 90 then 30
          else if (now - pushed) div DAY < 180 then 15 else 0)
     + int (min (stargazers_count r * 5) 50)
     + int (min (forks_count r * 2) 20)
     + (if description r \<noteq> None \<and> description r \<noteq> Some [] then 10 else 0)
     + (if topics r \<noteq> [] then 10 else 0)
     + (if 10 < repo_size r \<and> repo_size r < 100000 then 5 else 0)"
  by (auto simp: calculate_repo_score_def no_description_def Let_def split: option.splits)

lemma should_include_repo_eq:
  "should_include_repo r \<longleftrightarrow>
     \<not> archived r \<and> \<not> fork r \<and>
     \<not> ((description r = None \<or> description r = Some []) \<and> repo_size r = 0)"
  by (auto simp: should_include_repo_def no_description_def split: option.splits)


lemma filter_take_prefix: "prefix (filter P (take n xs)) (filter P xs)"
proof -
  have "filter P xs = filter P (take n xs) @ filter P (drop n xs)"
    by (metis append_take_drop_id filter_append)
  then show ?thesis by (simp add: prefix_def)
qed

lemma sort_desc_stable:
  "filter (\<lambda>p. snd p = k) (sort_key (\<lambda>x. - snd x) (xs :: ('a \<times> int) list)) = filter (\<lambda>p. snd p = k) xs"
  using sort_key_stable [of "\<lambda>x. - snd x" "- k" xs] by simp

text \<open>
  C5. The ranker keeps no archived repository, no fork, and no repository that has
  neither a description nor content (size 0); every kept repository comes with its
  score, which is the sum of the recency term (50, 30 or 15 for fewer than 30, 90 or 180
  whole days since the push, else 0, and 0 without a push time), \<open>min(stars * 5, 50)\<close>,
  \<open>min(forks * 2, 20)\<close>, 10 for a non-empty description, 10 for at least one topic, and
  5 for a size strictly between 10 and 100000. The output is the first 15 of the
  retained repositories arranged by descending score, repositories of equal score
  keeping their original order. A repository pushed 10 days ago with 3 stars, 1 fork,
  a description, one topic and size 500 scores 92.
\<close>

theorem ranker_output:
  "(\<forall>(r, s) \<in> set (top_repos clock repos).
       r \<in> set repos \<and> \<not> archived r \<and> \<not> fork r \<and>
       \<not> ((description r = None \<or> description r = Some []) \<and> repo_size r = 0) \<and>
       (\<exists>i. s = calculate_repo_score (clock i) r))
   \<and> calculate_repo_score now repo =
       (case pushed_at repo of
          None \<Rightarrow> 0
        | Some pushed \<Rightarrow>
            if (now - pushed) div DAY < 30 then 50
            else if (now - pushed) div DAY < 90 then 30
            else if (now - pushed) div DAY < 180 then 15 else 0)
       + int (min (stargazers_count repo * 5) 50)
       + int (min (forks_count repo * 2) 20)
       + (if description repo \<noteq> None \<and> description repo \<noteq> Some [] then 10 else 0)
       + (if topics repo \<noteq> [] then 10 else 0)
       + (if 10 < repo_size repo \<and> repo_size repo < 100000 then 5 else 0)
   \<and> map fst (scored_repos clock repos) =
       filter (\<lambda>r. \<not> archived r \<and> \<not> fork r \<and>
                  \<not> ((description r = None \<or> description r = Some []) \<and> repo_size r = 0)) repos
   \<and> (\<exists>ranked. top_repos clock repos = take 15 ranked \<and>
          mset ranked = mset (scored_repos clock repos) \<and>
          sorted_wrt (\<lambda>a b. snd b \<le> snd a) ranked \<and>
          (\<forall>k. filter (\<lambda>p. snd p = k) ranked = filter (\<lambda>p. snd p = k) (scored_repos clock repos)))
   \<and> sorted_wrt (\<lambda>a b. snd b \<le> snd a) (top_repos clock repos)
   \<and> prefix (filter (\<lambda>p. snd p = k) (top_repos clock repos))
        (filter (\<lambda>p. snd p = k) (scored_repos clock repos))
   \<and> length (top_repos clock repos) \<le> 15
   \<and> fetch_repositories extract_repo_data clock repos =
       map (\<lambda>p. extract_repo_data (fst p)) (top_repos clock repos)
   \<and> (pushed_at repo = Some pushed \<and> (now - pushed) div DAY = 10 \<and>
      stargazers_count repo = 3 \<and> forks_count repo = 1 \<and>
      description repo = Some d \<and> d \<noteq> [] \<and> topics repo = [topic] \<and> repo_size repo = 500 \<longrightarrow>
        calculate_repo_score now repo = 92)"
proof (intro conjI)
  let ?scored = "scored_repos clock repos"
  let ?ranked = "sort_key (\<lambda>x. - snd x) ?scored"
  show "\<forall>(r, s) \<in> set (top_repos clock repos).
       r \<in> set repos \<and> \<not> archived r \<and> \<not> fork r \<and>
       \<not> ((description r = None \<or> description r = Some []) \<and> repo_size r = 0) \<and>
       (\<exists>i. s = calculate_repo_score (clock i) r)"
  proof (clarify del: notI disjE)
    fix r s assume "(r, s) \<in> set (top_repos clock repos)"
    then have "(r, s) \<in> set ?scored" using top_repos_subset by blast
    then have "r \<in> set repos \<and> should_include_repo r \<and> (\<exists>i. s = calculate_repo_score (clock i) r)"
      by (rule scored_repos_member)
    then show "r \<in> set repos \<and> \<not> archived r \<and> \<not> fork r \<and>
       \<not> ((description r = None \<or> description r = Some []) \<and> repo_size r = 0) \<and>
       (\<exists>i. s = calculate_repo_score (clock i) r)"
      unfolding should_include_repo_eq by blast
  qed
  show "calculate_repo_score now repo =
       (case pushed_at repo of
          None \<Rightarrow> 0
        | Some pushed \<Rightarrow>
            if (now - pushed) div DAY < 30 then 50
            else if (now - pushed) div DAY < 90 then 30
            else if (now - pushed) div DAY < 180 then 15 else 0)
       + int (min (stargazers_count repo * 5) 50)
       + int (min (forks_count repo * 2) 20)
       + (if description repo \<noteq> None \<and> description repo \<noteq> Some [] then 10 else 0)
       + (if topics repo \<noteq> [] then 10 else 0)
       + (if 10 < repo_size repo \<and> repo_size repo < 100000 then 5 else 0)"
    by (rule calculate_repo_score_eq)
  show "map fst ?scored =
       filter (\<lambda>r. \<not> archived r \<and> \<not> fork r \<and>
                  \<not> ((description r = None \<or> description r = Some []) \<and> repo_size r = 0)) repos"
    unfolding scored_repos_fst should_include_repo_eq ..
  show "\<exists>ranked. top_repos clock repos = take 15 ranked \<and>
          mset ranked = mset ?scored \<and>
          sorted_wrt (\<lambda>a b. snd b \<le> snd a) ranked \<and>
          (\<forall>k. filter (\<lambda>p. snd p = k) ranked = filter (\<lambda>p. snd p = k) ?scored)"
  proof (intro exI [of _ ?ranked] conjI allI)
    show "top_repos clock repos = take 15 ?ranked"
      by (simp add: top_repos_def MAX_REPOS_def)
    show "mset ?ranked = mset ?scored" by simp
    show "sorted_wrt (\<lambda>a b. snd b \<le> snd a) ?ranked" by (rule sorted_desc)
    show "filter (\<lambda>p. snd p = k) ?ranked = filter (\<lambda>p. snd p = k) ?scored" for k
      by (rule sort_desc_stable)
  qed
  show "sorted_wrt (\<lambda>a b. snd b \<le> snd a) (top_repos clock repos)"
    unfolding top_repos_def by (rule sorted_wrt_take) (rule sorted_desc)
  show "prefix (filter (\<lambda>p. snd p = k) (top_repos clock repos)) (filter (\<lambda>p. snd p = k) ?scored)"
    unfolding top_repos_def sort_desc_stable [of k ?scored, symmetric]
    by (rule filter_take_prefix)
  show "length (top_repos clock repos) \<le> 15"
    by (simp add: top_repos_def MAX_REPOS_def)
  show "fetch_repositories extract_repo_data clock repos =
       map (\<lambda>p. extract_repo_data (fst p)) (top_repos clock repos)"
    by (simp add: fetch_repositories_def split_beta)
  show "pushed_at repo = Some pushed \<and> (now - pushed) div DAY = 10 \<and>
      stargazers_count repo = 3 \<and> forks_count repo = 1 \<and>
      description repo = Some d \<and> d \<noteq> [] \<and> topics repo = [topic] \<and> repo_size repo = 500 \<longrightarrow>
        calculate_repo_score now repo = 92"
    by (simp add: calculate_repo_score_eq)
qed


theorem ranker_output_witness:
  "top_repos (\<lambda>i. 100 * DAY)
     [\<lparr>repo_name = py ''gamma'', archived = False, fork = False, description = Some (py ''a parser''), repo_size = 500, pushed_at = Some (90 * DAY), stargazers_count = 3, forks_count = 1, topics = [py ''python'']\<rparr>,
      \<lparr>repo_name = py ''old'', archived = True, fork = False, description = Some (py ''archived''), repo_size = 500, pushed_at = Some (99 * DAY), stargazers_count = 100, forks_count = 0, topics = []\<rparr>,
      \<lparr>repo_name = py ''forked'', archived = False, fork = True, description = Some (py ''a fork''), repo_size = 500, pushed_at = Some (99 * DAY), stargazers_count = 100, forks_count = 0, topics = []\<rparr>,
      \<lparr>repo_name = py ''empty'', archived = False, fork = False, description = None, repo_size = 0, pushed_at = None, stargazers_count = 0, forks_count = 0, topics = []\<rparr>,
      \<lparr>repo_name = py ''delta'', archived = False, fork = False, description = Some (py ''a lexer''), repo_size = 500, pushed_at = Some (90 * DAY), stargazers_count = 3, forks_count = 1, topics = [py ''go'']\<rparr>,
      \<lparr>repo_name = py ''alpha'', archived = False, fork = False, description = Some (py ''x''), repo_size = 500, pushed_at = Some (95 * DAY), stargazers_count = 100, forks_count = 0, topics = [py ''a'']\<rparr>]
   = [(\<lparr>repo_name = py ''alpha'', archived = False, fork = False, description = Some (py ''x''), repo_size = 500, pushed_at = Some (95 * DAY), stargazers_count = 100, forks_count = 0, topics = [py ''a'']\<rparr>, 125),
      (\<lparr>repo_name = py ''gamma'', archived = False, fork = False, description = Some (py ''a parser''), repo_size = 500, pushed_at = Some (90 * DAY), stargazers_count = 3, forks_count = 1, topics = [py ''python'']\<rparr>, 92),
      (\<lparr>repo_name = py ''delta'', archived = False, fork = False, description = Some (py ''a lexer''), repo_size = 500, pushed_at = Some (90 * DAY), stargazers_count = 3, forks_count = 1, topics = [py ''go'']\<rparr>, 92)]
   \<and> calculate_repo_score (100 * DAY)
        \<lparr>repo_name = py ''gamma'', archived = False, fork = False, description = Some (py ''a parser''), repo_size = 500, pushed_at = Some (90 * DAY), stargazers_count = 3, forks_count = 1, topics = [py ''python'']\<rparr> = 92"
proof -
  let ?gamma = "\<lparr>repo_name = py ''gamma'', archived = False, fork = False, description = Some (py ''a parser''), repo_size = 500, pushed_at = Some (90 * DAY), stargazers_count = 3, forks_count = 1, topics = [py ''python'']\<rparr>"
  have s: "calculate_repo_score (100 * DAY) ?gamma = 92"
    using ranker_output [of _ _ "100 * DAY" ?gamma, THEN conjunct2, THEN conjunct2, THEN conjunct2,
        THEN conjunct2, THEN conjunct2, THEN conjunct2, THEN conjunct2, THEN conjunct2,
        of "90 * DAY" "py ''a parser''" "py ''python''"]
    by (simp add: DAY_def py_def)
  have t: "top_repos (\<lambda>i. 100 * DAY)
     [?gamma,
      \<lparr>repo_name = py ''old'', archived = True, fork = False, description = Some (py ''archived''), repo_size = 500, pushed_at = Some (99 * DAY), stargazers_count = 100, forks_count = 0, topics = []\<rparr>,
      \<lparr>repo_name = py ''forked'', archived = False, fork = True, description = Some (py ''a fork''), repo_size = 500, pushed_at = Some (99 * DAY), stargazers_count = 100, forks_count = 0, topics = []\<rparr>,
      \<lparr>repo_name = py ''empty'', archived = False, fork = False, description = None, repo_size = 0, pushed_at = None, stargazers_count = 0, forks_count = 0, topics = []\<rparr>,
      \<lparr>repo_name = py ''delta'', archived = False, fork = False, description = Some (py ''a lexer''), repo_size = 500, pushed_at = Some (90 * DAY), stargazers_count = 3, forks_count = 1, topics = [py ''go'']\<rparr>,
      \<lparr>repo_name = py ''alpha'', archived = False, fork = False, description = Some (py ''x''), repo_size = 500, pushed_at = Some (95 * DAY), stargazers_count = 100, forks_count = 0, topics = [py ''a'']\<rparr>]
   = [(\<lparr>repo_name = py ''alpha'', archived = False, fork = False, description = Some (py ''x''), repo_size = 500, pushed_at = Some (95 * DAY), stargazers_count = 100, forks_count = 0, topics = [py ''a'']\<rparr>, 125),
      (?gamma, 92),
      (\<lparr>repo_name = py ''delta'', archived = False, fork = False, description = Some (py ''a lexer''), repo_size = 500, pushed_at = Some (90 * DAY), stargazers_count = 3, forks_count = 1, topics = [py ''go'']\<rparr>, 92)]"
    by (simp add: top_repos_def scored_repos_def should_include_repo_def no_description_def
        calculate_repo_score_def MAX_REPOS_def DAY_def enumerate_eq_zip upt_rec)
  show ?thesis using s t by (intro conjI)
qed

end
